theory Spec2Isabelle
  imports Complex_Main
begin

section \<open>JavaScript numbers\<close>

text \<open>
  Point amounts, counters and list lengths are integers far below \<open>2^53\<close>, where the
  arithmetic of JavaScript numbers is exact; they are modelled as \<open>int\<close> and \<open>nat\<close>.
  The two percentage computations of the repository divide first and multiply by 100
  afterwards, so the quotient is rounded to a binary64 number before the multiplication.
  \<open>fl\<close> is that rounding (53 significant bits, nearest, ties to even) on exact
  rationals. The exponent range of binary64 is not modelled: every value rounded here
  lies between \<open>2^-32\<close> and \<open>100 * 2^32\<close> in magnitude.
\<close>

fun ilog2 :: "nat \<Rightarrow> nat" where
  "ilog2 n = (if n < 2 then 0 else Suc (ilog2 (n div 2)))"

declare ilog2.simps [simp del]

definition clog2 :: "nat \<Rightarrow> nat" where
  "clog2 n = (if n \<le> 1 then 0 else Suc (ilog2 (n - 1)))"

text \<open>The binary exponent \<open>\<lfloor>log\<^sub>2 x\<rfloor>\<close> of a positive rational.\<close>

definition binade :: "rat \<Rightarrow> int" where
  "binade x = (if 1 \<le> x then int (ilog2 (nat \<lfloor>x\<rfloor>)) else - int (clog2 (nat \<lceil>1 / x\<rceil>)))"

definition round_half_even :: "rat \<Rightarrow> int" where
  "round_half_even x =
     (let f = \<lfloor>x\<rfloor>; r = x - of_int f
      in if r < 1 / 2 then f else if 1 / 2 < r then f + 1 else if even f then f else f + 1)"

definition fl :: "rat \<Rightarrow> rat" where
  "fl x = (if x = 0 then 0
           else let e = binade \<bar>x\<bar> - 52
                in sgn x * of_int (round_half_even (\<bar>x\<bar> / power_int 2 e)) * power_int 2 e)"

text \<open>\<open>Math.round\<close>: the nearest integer, a tie going towards plus infinity.\<close>

definition Math_round :: "rat \<Rightarrow> int" where
  "Math_round x = \<lfloor>x + 1 / 2\<rfloor>"

datatype jsnum = Num int | PosInfinity | NegInfinity | NaN

text \<open>
  The expression \<open>Math.round((a / b) * 100)\<close> for integers \<open>a\<close> and \<open>b \<ge> 0\<close>.
  Division by zero does not raise in JavaScript: \<open>0 / 0\<close> is \<open>NaN\<close> and \<open>a / 0\<close> is an
  infinity, and both pass through the multiplication and through \<open>Math.round\<close>.
\<close>

definition round_percent :: "int \<Rightarrow> nat \<Rightarrow> jsnum" where
  "round_percent a b =
     (if b = 0 then (if a = 0 then NaN else if 0 < a then PosInfinity else NegInfinity)
      else Num (Math_round (fl (fl (of_int a / of_nat b) * 100))))"

section \<open>Lists with in-place update of the first match\<close>

text \<open>
  \<open>Array.prototype.find\<close> and the \<open>id\<close> lookup of a document array return the first
  matching element by reference; assigning to a field of the result changes that
  element of the array and no other.
\<close>

fun update_first :: "('a \<Rightarrow> bool) \<Rightarrow> ('a \<Rightarrow> 'a) \<Rightarrow> 'a list \<Rightarrow> 'a list" where
  "update_first P f [] = []"
| "update_first P f (x # xs) = (if P x then f x # xs else x # update_first P f xs)"

section \<open>User: points ledger and badge evaluator (models/User.js)\<close>

record point_entry =
  pe_amount :: int
  pe_reason :: string
  pe_date :: nat
  pe_project :: "nat option"

record badge =
  b_name :: string
  b_description :: string
  b_icon :: string
  b_earnedDate :: nat

datatype role = Volunteer | Ngo | Admin

record user =
  u_id :: nat
  u_role :: role
  points_total :: int
  points_earned :: "point_entry list"
  badges :: "badge list"
  projectsCompleted :: int
  tasksCompleted :: int
  hoursVolunteered :: rat
  isActive :: bool

definition toLowerCase :: "string \<Rightarrow> string" where
  "toLowerCase s =
     map (\<lambda>c. let n = (of_char c :: nat) in if 65 \<le> n \<and> n \<le> 90 then char_of (n + 32) else c) s"

text \<open>\<open>String.prototype.replace\<close> with a string pattern replaces the first occurrence only.\<close>

fun replace_char :: "char \<Rightarrow> char \<Rightarrow> string \<Rightarrow> string" where
  "replace_char a b [] = []"
| "replace_char a b (c # cs) = (if c = a then b # cs else c # replace_char a b cs)"

definition badgeThresholds :: "(int \<times> string \<times> string) list" where
  "badgeThresholds =
     [(100, ''First Steps'', ''Completed first task''),
      (500, ''Bronze Contributor'', ''Earned 500 points''),
      (1000, ''Silver Contributor'', ''Earned 1000 points''),
      (2000, ''Gold Contributor'', ''Earned 2000 points''),
      (5000, ''Platinum Contributor'', ''Earned 5000 points'')]"

text \<open>
  \<open>checkAndAwardBadges\<close>: the total and the names already held are read once, before the
  loop over the thresholds; the loop pushes onto the badge list. \<open>now\<close> is the clock
  read by the default of \<open>earnedDate\<close>.
\<close>

definition new_badge :: "nat \<Rightarrow> int \<times> string \<times> string \<Rightarrow> badge" where
  "new_badge now th =
     (case th of (pts, name, descr) \<Rightarrow>
        \<lparr>b_name = name, b_description = descr,
         b_icon = ''badge-'' @ replace_char CHR '' '' CHR ''-'' (toLowerCase name),
         b_earnedDate = now\<rparr>)"

definition award :: "int \<Rightarrow> string list \<Rightarrow> nat \<Rightarrow> badge list \<Rightarrow> int \<times> string \<times> string \<Rightarrow> badge list" where
  "award points existingBadges now bs th =
     (if points \<ge> fst th \<and> fst (snd th) \<notin> set existingBadges
      then bs @ [new_badge now th]
      else bs)"

definition checkAndAwardBadges :: "nat \<Rightarrow> user \<Rightarrow> user" where
  "checkAndAwardBadges now u =
     (let points = points_total u;
          existingBadges = map b_name (badges u)
      in u\<lparr>badges := foldl (award points existingBadges now) (badges u) badgeThresholds\<rparr>)"

text \<open>
  \<open>addPoints\<close>. The method ends in \<open>this.save()\<close>; persistence is outside the model
  (the pre-save hook of the user schema only concerns the password), so the result is
  the updated document.
\<close>

definition addPoints :: "int \<Rightarrow> string \<Rightarrow> nat option \<Rightarrow> nat \<Rightarrow> user \<Rightarrow> user" where
  "addPoints amount reason projectId now u =
     checkAndAwardBadges now
       (u\<lparr>points_total := points_total u + amount,
          points_earned := points_earned u @
            [\<lparr>pe_amount = amount, pe_reason = reason, pe_date = now, pe_project = projectId\<rparr>]\<rparr>)"

text \<open>A sequence of \<open>addPoints\<close> calls, each with its arguments and the clock at the call.\<close>

type_synonym points_call = "int \<times> string \<times> nat option \<times> nat"

definition addPoints_call :: "user \<Rightarrow> points_call \<Rightarrow> user" where
  "addPoints_call u c = (case c of (amount, reason, projectId, now) \<Rightarrow> addPoints amount reason projectId now u)"

definition entry_of_call :: "points_call \<Rightarrow> point_entry" where
  "entry_of_call c =
     (case c of (amount, reason, projectId, now) \<Rightarrow>
        \<lparr>pe_amount = amount, pe_reason = reason, pe_date = now, pe_project = projectId\<rparr>)"

definition fresh_user :: "nat \<Rightarrow> user" where
  "fresh_user i =
     \<lparr>u_id = i, u_role = Volunteer, points_total = 0, points_earned = [], badges = [],
      projectsCompleted = 0, tasksCompleted = 0, hoursVolunteered = 0, isActive = True\<rparr>"

text \<open>A user with 550 points who holds the first badge.\<close>

definition example_holder :: user where
  "example_holder =
     (fresh_user 1)\<lparr>points_total := 550,
       badges := [\<lparr>b_name = ''First Steps'', b_description = ''Completed first task'',
                   b_icon = ''badge-first-steps'', b_earnedDate = 3\<rparr>]\<rparr>"

text \<open>The badge table as the specification gives it: threshold and name.\<close>

definition spec_badge_table :: "(int \<times> string) list" where
  "spec_badge_table =
     [(100, ''First Steps''), (500, ''Bronze Contributor''), (1000, ''Silver Contributor''),
      (2000, ''Gold Contributor''), (5000, ''Platinum Contributor'')]"

section \<open>Task lifecycle (Task model)\<close>

datatype error =
  AlreadyApplied | ProjectFull | VolunteerNotFound | DeliverableNotFound | ValidationError

datatype task_status = Pending | Assigned | InProgress | Completed | Cancelled | OnHold

datatype deliverable_status = DPending | DInProgress | DCompleted

record file_info =
  filename :: string
  path :: string
  uploadDate :: nat

record deliverable =
  d_id :: nat
  d_name :: string
  d_description :: string
  d_type :: string
  d_status :: deliverable_status
  d_file :: "file_info option"

record progress_update =
  pu_message :: string
  pu_date :: nat
  pu_updatedBy :: nat
  pu_attachments :: "string list"

record task =
  task_project :: nat
  assignedTo :: "nat option"
  assignedBy :: nat
  status :: task_status
  completedDate :: "nat option"
  actualHours :: rat
  deliverables :: "deliverable list"
  progress_percentage :: jsnum
  progress_updates :: "progress_update list"
  task_points_base :: int
  task_points_bonus :: int
  task_points_total :: int

text \<open>Every method of the task ends in \<open>this.save()\<close>, which runs the pre-save hook.\<close>

definition task_save :: "task \<Rightarrow> task" where
  "task_save t = t\<lparr>task_points_total := task_points_base t + task_points_bonus t\<rparr>"

definition updateProgress :: "int \<Rightarrow> string \<Rightarrow> nat \<Rightarrow> string list \<Rightarrow> nat \<Rightarrow> task \<Rightarrow> task" where
  "updateProgress percentage message updatedBy attachments now t =
     (let t1 = t\<lparr>progress_percentage := Num (min 100 (max 0 percentage))\<rparr>;
          t2 = t1\<lparr>progress_updates := progress_updates t1 @
                 [\<lparr>pu_message = message, pu_date = now, pu_updatedBy = updatedBy,
                   pu_attachments = attachments\<rparr>]\<rparr>;
          t3 = (if percentage \<ge> 100 \<and> status t2 \<noteq> Completed
                then t2\<lparr>status := Completed, completedDate := Some now\<rparr>
                else t2)
      in task_save t3)"

definition assignTo :: "nat \<Rightarrow> task \<Rightarrow> task" where
  "assignTo userId t = task_save (t\<lparr>assignedTo := Some userId, status := Assigned\<rparr>)"

text \<open>
  \<open>complete\<close> ends in \<open>this.save()\<close>, which validates the paths the method assigned
  before it stores the document. The status is a member of its enum and the percentage
  is 100, so the only validator an assigned value can fail is \<open>min: 0\<close> on
  \<open>timeline.actualHours\<close>. When it fails the save is rejected with a validation error and
  nothing is stored; the result is then the error, and otherwise the stored document.
\<close>

definition actualHours_valid :: "rat option \<Rightarrow> bool" where
  "actualHours_valid hours = (case hours of None \<Rightarrow> True | Some h \<Rightarrow> 0 \<le> h)"

definition complete :: "rat option \<Rightarrow> nat \<Rightarrow> task \<Rightarrow> error + task" where
  "complete hours now t =
     (let t1 = t\<lparr>status := Completed, completedDate := Some now, progress_percentage := Num 100\<rparr>;
          t2 = (case hours of None \<Rightarrow> t1 | Some h \<Rightarrow> t1\<lparr>actualHours := h\<rparr>)
      in if actualHours_valid hours then Inr (task_save t2) else Inl ValidationError)"

text \<open>\<open>new_id\<close> is the identifier the document array generates for the pushed element.\<close>

definition addDeliverable :: "nat \<Rightarrow> string \<Rightarrow> string \<Rightarrow> string \<Rightarrow> task \<Rightarrow> task" where
  "addDeliverable new_id name description type t =
     task_save (t\<lparr>deliverables := deliverables t @
       [\<lparr>d_id = new_id, d_name = name, d_description = description, d_type = type,
         d_status = DPending, d_file = None\<rparr>]\<rparr>)"

definition mark_completed :: "(string \<times> string) option \<Rightarrow> nat \<Rightarrow> deliverable \<Rightarrow> deliverable" where
  "mark_completed file now d =
     (let d1 = d\<lparr>d_status := DCompleted\<rparr>
      in case file of
           None \<Rightarrow> d1
         | Some (fname, fpath) \<Rightarrow>
             d1\<lparr>d_file := Some \<lparr>filename = fname, path = fpath, uploadDate = now\<rparr>\<rparr>)"

text \<open>
  \<open>completeDeliverable\<close> returns the error thrown, if any, and the task as the call
  leaves it. The throw comes before any assignment.
\<close>

definition completeDeliverable ::
    "nat \<Rightarrow> (string \<times> string) option \<Rightarrow> nat \<Rightarrow> task \<Rightarrow> error option \<times> task" where
  "completeDeliverable deliverableId file now t =
     (case find (\<lambda>d. d_id d = deliverableId) (deliverables t) of
        None \<Rightarrow> (Some DeliverableNotFound, t)
      | Some _ \<Rightarrow>
          (let t1 = t\<lparr>deliverables :=
                      update_first (\<lambda>d. d_id d = deliverableId) (mark_completed file now)
                        (deliverables t)\<rparr>;
               completedCount = length (filter (\<lambda>d. d_status d = DCompleted) (deliverables t1));
               t2 = t1\<lparr>progress_percentage :=
                      round_percent (int completedCount) (length (deliverables t1))\<rparr>
           in (None, task_save t2)))"

definition deliverableProgress :: "task \<Rightarrow> jsnum" where
  "deliverableProgress t =
     (if length (deliverables t) = 0 then progress_percentage t
      else round_percent (int (length (filter (\<lambda>d. d_status d = DCompleted) (deliverables t))))
             (length (deliverables t)))"

definition date_iff_completed :: "task \<Rightarrow> bool" where
  "date_iff_completed t = ((completedDate t \<noteq> None) = (status t = Completed))"

definition new_task :: "nat \<Rightarrow> nat \<Rightarrow> task" where
  "new_task proj creator =
     \<lparr>task_project = proj, assignedTo = None, assignedBy = creator, status = Pending,
      completedDate = None, actualHours = 0, deliverables = [], progress_percentage = Num 0,
      progress_updates = [], task_points_base = 100, task_points_bonus = 0,
      task_points_total = 100\<rparr>"

definition new_deliverable :: "nat \<Rightarrow> deliverable" where
  "new_deliverable i =
     \<lparr>d_id = i, d_name = ''report'', d_description = [], d_type = ''document'',
      d_status = DPending, d_file = None\<rparr>"

text \<open>
  A task with three pending deliverables and a percentage set by hand, and a task with
  forty deliverables of which the first twenty-two are completed.
\<close>

definition three_task :: task where
  "three_task = (new_task 1 2)\<lparr>deliverables := [new_deliverable 0, new_deliverable 1, new_deliverable 2],
                               progress_percentage := Num 80\<rparr>"

definition forty_task :: task where
  "forty_task =
     (new_task 1 2)\<lparr>deliverables :=
        map (\<lambda>i. (new_deliverable i)\<lparr>d_status := (if i < 22 then DCompleted else DPending)\<rparr>) [0..<40]\<rparr>"

section \<open>Project volunteer roster (Project model in models/NGO.js, routes/projects.js)\<close>

datatype project_status =
  Draft | PendingApproval | Approved | Active | ProjectCompleted | ProjectCancelled | ProjectOnHold

datatype volunteer_status = Applied | Accepted | Rejected | VolunteerCompleted | Dropped

record volunteer =
  v_user :: nat
  v_joinedDate :: nat
  v_status :: volunteer_status
  v_role :: string
  v_hoursContributed :: rat

record project =
  project_status :: project_status
  volunteers :: "volunteer list"
  volunteers_total :: int
  volunteers_current :: int

definition accepted_count :: "volunteer list \<Rightarrow> int" where
  "accepted_count vs = int (length (filter (\<lambda>v. v_status v = Accepted) vs))"

text \<open>
  The pre-save hook of the project schema. \<open>modified\<close> is the answer of
  \<open>this.isModified('volunteers')\<close>.
\<close>

definition project_save :: "bool \<Rightarrow> project \<Rightarrow> project" where
  "project_save modified p =
     (if modified then p\<lparr>volunteers_current := accepted_count (volunteers p)\<rparr> else p)"

definition addVolunteer :: "nat \<Rightarrow> string \<Rightarrow> nat \<Rightarrow> project \<Rightarrow> error option \<times> project" where
  "addVolunteer userId vrole now p =
     (case find (\<lambda>v. v_user v = userId) (volunteers p) of
        Some existingVolunteer \<Rightarrow> (Some AlreadyApplied, p)
      | None \<Rightarrow>
          if volunteers_current p \<ge> volunteers_total p then (Some ProjectFull, p)
          else (None, project_save True
                  (p\<lparr>volunteers := volunteers p @
                       [\<lparr>v_user = userId, v_joinedDate = now, v_status = Applied, v_role = vrole,
                         v_hoursContributed = 0\<rparr>]\<rparr>)))"

text \<open>
  Assigning a status marks the roster as modified when the value changes; the count is
  recomputed by the method itself before the save.
\<close>

definition updateVolunteerStatus :: "nat \<Rightarrow> volunteer_status \<Rightarrow> project \<Rightarrow> error option \<times> project" where
  "updateVolunteerStatus userId st p =
     (case find (\<lambda>v. v_user v = userId) (volunteers p) of
        None \<Rightarrow> (Some VolunteerNotFound, p)
      | Some vol \<Rightarrow>
          (let p1 = p\<lparr>volunteers :=
                      update_first (\<lambda>v. v_user v = userId) (\<lambda>v. v\<lparr>v_status := st\<rparr>) (volunteers p)\<rparr>;
               p2 = p1\<lparr>volunteers_current := accepted_count (volunteers p1)\<rparr>
           in (None, project_save (v_status vol \<noteq> st) p2)))"

text \<open>A response of a request handler: the HTTP status and the message.\<close>

datatype response = Response nat string

text \<open>
  \<open>POST /api/projects/:id/apply\<close> on the project collection, a map from identifiers to
  documents. The handler repeats the checks of \<open>addVolunteer\<close> behind a check of the
  project's status; the notification mail is not modelled.
\<close>

definition apply_route :: "(nat \<rightharpoonup> project) \<Rightarrow> nat \<Rightarrow> nat \<Rightarrow> nat \<Rightarrow> response \<times> (nat \<rightharpoonup> project)" where
  "apply_route db projectId userId now =
     (case db projectId of
        None \<Rightarrow> (Response 404 ''Project not found'', db)
      | Some p \<Rightarrow>
          if project_status p \<noteq> Active
          then (Response 400 ''Project is not accepting applications'', db)
          else (case find (\<lambda>v. v_user v = userId) (volunteers p) of
                  Some existingApplication \<Rightarrow>
                    (Response 400 ''You have already applied for this project'', db)
                | None \<Rightarrow>
                    if volunteers_current p \<ge> volunteers_total p
                    then (Response 400 ''Project is full'', db)
                    else (Response 200 ''Application submitted successfully'',
                          db(projectId \<mapsto> project_save True
                            (p\<lparr>volunteers := volunteers p @
                                 [\<lparr>v_user = userId, v_joinedDate = now, v_status = Applied,
                                   v_role = ''volunteer'', v_hoursContributed = 0\<rparr>]\<rparr>)))))"

text \<open>A project with one accepted volunteer and a stale count, and a full project.\<close>

definition example_project :: project where
  "example_project =
     \<lparr>project_status = Active,
      volunteers = [\<lparr>v_user = 1, v_joinedDate = 2, v_status = Accepted, v_role = ''volunteer'',
                     v_hoursContributed = 0\<rparr>],
      volunteers_total = 3, volunteers_current = 0\<rparr>"

definition full_project :: project where
  "full_project = example_project\<lparr>volunteers_total := 1, volunteers_current := 1\<rparr>"

section \<open>Leaderboard rank (GET /api/leaderboard/user/:id/rank)\<close>

definition findById :: "user list \<Rightarrow> nat \<Rightarrow> user option" where
  "findById db i = find (\<lambda>u. u_id u = i) db"

definition countDocuments :: "(user \<Rightarrow> bool) \<Rightarrow> user list \<Rightarrow> nat" where
  "countDocuments query db = length (filter query db)"

record rank_data =
  rank :: nat
  total :: nat
  percentile :: jsnum

definition rank_counts :: "user list \<Rightarrow> user \<Rightarrow> string \<Rightarrow> nat \<times> nat" where
  "rank_counts db usr type =
     (if type = ''points'' then
        (countDocuments (\<lambda>u. points_total u > points_total usr \<and> isActive u) db + 1,
         countDocuments (\<lambda>u. isActive u \<and> points_total u > 0) db)
      else if type = ''projects'' then
        (countDocuments (\<lambda>u. projectsCompleted u > projectsCompleted usr \<and> isActive u) db + 1,
         countDocuments (\<lambda>u. isActive u \<and> projectsCompleted u > 0) db)
      else if type = ''hours'' then
        (countDocuments (\<lambda>u. hoursVolunteered u > hoursVolunteered usr \<and> isActive u) db + 1,
         countDocuments (\<lambda>u. isActive u \<and> hoursVolunteered u > 0) db)
      else (0, 0))"

definition rank_route :: "user list \<Rightarrow> nat \<Rightarrow> string option \<Rightarrow> response + rank_data" where
  "rank_route db userId type_param =
     (let type = (case type_param of None \<Rightarrow> ''points'' | Some s \<Rightarrow> s)
      in case findById db userId of
           None \<Rightarrow> Inl (Response 404 ''User not found'')
         | Some usr \<Rightarrow>
             (case rank_counts db usr type of
                (rnk, tot) \<Rightarrow>
                  Inr \<lparr>rank = rnk, total = tot,
                       percentile = (if tot > 0 then round_percent (int tot - int rnk + 1) tot
                                     else Num 0)\<rparr>))"

text \<open>The metric of a user that a value of the \<open>type\<close> parameter ranks by.\<close>

definition metric :: "string \<Rightarrow> user \<Rightarrow> rat" where
  "metric type u =
     (if type = ''points'' then of_int (points_total u)
      else if type = ''projects'' then of_int (projectsCompleted u)
      else hoursVolunteered u)"

definition user_with_points :: "nat \<Rightarrow> int \<Rightarrow> user" where
  "user_with_points i pts = (fresh_user i)\<lparr>points_total := pts\<rparr>"

text \<open>The example of the specification: active users with 500, 300, 300 and 100 points.\<close>

definition example_users :: "user list" where
  "example_users =
     [user_with_points 1 500, user_with_points 2 300, user_with_points 3 300, user_with_points 4 100]"

text \<open>Forty active users; the user with identifier \<open>i\<close> has \<open>i\<close> points.\<close>

definition forty_users :: "user list" where
  "forty_users = map (\<lambda>i. user_with_points i (int i)) [1..<41]"

section \<open>Task completion workflow (PUT /api/tasks/:id/complete)\<close>

record store =
  tasks :: "nat \<rightharpoonup> task"
  users :: "user list"

definition save_user :: "user \<Rightarrow> user list \<Rightarrow> user list" where
  "save_user u db = update_first (\<lambda>v. u_id v = u_id u) (\<lambda>v. u) db"

text \<open>
  The handler: look the task up, check the caller, complete the task, then credit the
  assignee if the task has one and the user exists. The handler does not look at the
  status the task had. It declares a validator for \<open>actualHours\<close> but never reads the
  validation result, so \<open>hours\<close>, which is \<open>req.body.actualHours\<close>, is absent or any
  number. When \<open>task.complete\<close> is rejected the \<open>catch\<close> answers 500 and nothing has been
  stored. \<open>now\<close> and \<open>now'\<close> are the clock at the completion and at the credit.
\<close>

definition complete_route ::
    "store \<Rightarrow> nat \<Rightarrow> role \<Rightarrow> nat \<Rightarrow> rat option \<Rightarrow> nat \<Rightarrow> nat \<Rightarrow> response \<times> store" where
  "complete_route st callerId callerRole taskId hours now now' =
     (case tasks st taskId of
        None \<Rightarrow> (Response 404 ''Task not found'', st)
      | Some t \<Rightarrow>
          if \<not> (callerRole = Admin \<or> assignedTo t = Some callerId \<or> assignedBy t = callerId)
          then (Response 403 ''Not authorized to complete this task'', st)
          else
            (case complete hours now t of
               Inl e \<Rightarrow> (Response 500 ''Server error'', st)
             | Inr t' \<Rightarrow>
                 (let st1 = st\<lparr>tasks := (tasks st)(taskId \<mapsto> t')\<rparr>
                  in case assignedTo t' of
                       None \<Rightarrow> (Response 200 ''Task completed successfully'', st1)
                     | Some a \<Rightarrow>
                         (case findById (users st1) a of
                            None \<Rightarrow> (Response 200 ''Task completed successfully'', st1)
                          | Some vol \<Rightarrow>
                              (let v1 = addPoints (task_points_total t') ''Task completed''
                                          (Some (task_project t')) now' vol;
                                   st2 = st1\<lparr>users := save_user v1 (users st1)\<rparr>;
                                   v2 = v1\<lparr>tasksCompleted := tasksCompleted v1 + 1\<rparr>;
                                   v3 = (case hours of
                                           None \<Rightarrow> v2
                                         | Some h \<Rightarrow>
                                             if h \<noteq> 0
                                             then v2\<lparr>hoursVolunteered := hoursVolunteered v2 + h\<rparr>
                                             else v2)
                               in (Response 200 ''Task completed successfully'',
                                   st2\<lparr>users := save_user v3 (users st2)\<rparr>))))))"

text \<open>
  The task that \<open>complete\<close> stores for a new task assigned to user 7, a store whose task 4
  is that completed task, and a store whose task 4 is assigned to a user that does not
  exist.
\<close>

definition completed_task :: task where
  "completed_task =
     (new_task 1 2)\<lparr>assignedTo := Some 7, status := Completed, completedDate := Some 5,
                     progress_percentage := Num 100\<rparr>"

definition completed_store :: store where
  "completed_store = \<lparr>tasks = [4 \<mapsto> completed_task], users = [fresh_user 6, fresh_user 7]\<rparr>"

definition orphan_task :: task where
  "orphan_task = (new_task 1 2)\<lparr>assignedTo := Some 8\<rparr>"

definition orphan_store :: store where
  "orphan_store = \<lparr>tasks = [4 \<mapsto> orphan_task], users = [fresh_user 6, fresh_user 7]\<rparr>"

section \<open>Properties\<close>

subsection \<open>Points ledger\<close>

lemma checkAndAwardBadges_points:
  "points_total (checkAndAwardBadges now u) = points_total u"
  "points_earned (checkAndAwardBadges now u) = points_earned u"
  by (simp_all add: checkAndAwardBadges_def Let_def)

lemma addPoints_total: "points_total (addPoints a r p now u) = points_total u + a"
  by (simp add: addPoints_def checkAndAwardBadges_points)

lemma addPoints_earned:
  "points_earned (addPoints a r p now u) =
     points_earned u @ [\<lparr>pe_amount = a, pe_reason = r, pe_date = now, pe_project = p\<rparr>]"
  by (simp add: addPoints_def checkAndAwardBadges_points)

lemma addPoints_call_earned:
  "points_earned (addPoints_call u c) = points_earned u @ [entry_of_call c]"
  by (cases c) (simp add: addPoints_call_def entry_of_call_def addPoints_earned)

lemma addPoints_call_total:
  "points_total (addPoints_call u c) = points_total u + fst c"
  by (cases c) (simp add: addPoints_call_def addPoints_total)

lemma entry_of_call_amount: "pe_amount (entry_of_call c) = fst c"
  by (cases c) (simp add: entry_of_call_def)

lemma foldl_addPoints_earned:
  "points_earned (foldl addPoints_call u calls) = points_earned u @ map entry_of_call calls"
  by (induction calls arbitrary: u) (simp_all add: addPoints_call_earned)

lemma foldl_addPoints_total:
  "points_total (foldl addPoints_call u calls) = points_total u + sum_list (map fst calls)"
  by (induction calls arbitrary: u) (simp_all add: addPoints_call_total)

lemma sum_entry_amounts:
  "sum_list (map pe_amount (map entry_of_call calls)) = sum_list (map fst calls)"
  by (induction calls) (simp_all add: entry_of_call_amount)

text \<open>
  Claim C1. For a user whose total equals the sum of the amounts in the earned log, any
  sequence of \<open>addPoints\<close> calls leaves the log equal to the old log followed by one
  entry per call, in call order; the total equals the sum of the amounts in the log, and
  has grown by the sum of the amounts of the calls; the log has grown by the number of
  calls. For a user with an empty log the total is the sum of the amounts of the calls
  and the length of the log is the number of calls.
\<close>

theorem addPoints_ledger:
  assumes "points_total u = sum_list (map pe_amount (points_earned u))"
  shows "points_earned (foldl addPoints_call u calls) = points_earned u @ map entry_of_call calls
       \<and> points_total (foldl addPoints_call u calls)
           = sum_list (map pe_amount (points_earned (foldl addPoints_call u calls)))
       \<and> points_total (foldl addPoints_call u calls) = points_total u + sum_list (map fst calls)
       \<and> length (points_earned (foldl addPoints_call u calls))
           = length (points_earned u) + length calls
       \<and> (points_earned u = [] \<longrightarrow>
            points_total (foldl addPoints_call u calls) = sum_list (map fst calls)
          \<and> length (points_earned (foldl addPoints_call u calls)) = length calls)"
proof -
  have log: "points_earned (foldl addPoints_call u calls) = points_earned u @ map entry_of_call calls"
    by (rule foldl_addPoints_earned)
  have tot: "points_total (foldl addPoints_call u calls) = points_total u + sum_list (map fst calls)"
    by (rule foldl_addPoints_total)
  have "sum_list (map pe_amount (points_earned u @ map entry_of_call calls))
          = sum_list (map pe_amount (points_earned u)) + sum_list (map pe_amount (map entry_of_call calls))"
    by simp
  then have inv: "points_total (foldl addPoints_call u calls)
           = sum_list (map pe_amount (points_earned (foldl addPoints_call u calls)))"
    using assms by (simp only: log tot sum_entry_amounts)
  have len: "length (points_earned (foldl addPoints_call u calls))
           = length (points_earned u) + length calls"
    by (simp add: log)
  have fresh: "points_earned u = [] \<longrightarrow>
            points_total (foldl addPoints_call u calls) = sum_list (map fst calls)
          \<and> length (points_earned (foldl addPoints_call u calls)) = length calls"
    using assms by (simp add: tot len)
  from log inv tot len fresh show ?thesis by blast
qed

theorem addPoints_ledger_witness:
  "points_total (fresh_user 7) = sum_list (map pe_amount (points_earned (fresh_user 7)))
   \<and> points_total (foldl addPoints_call (fresh_user 7)
        [(150, ''Task completed'', None, 10), (400, ''Task completed'', Some 3, 20)]) = 550
   \<and> length (points_earned (foldl addPoints_call (fresh_user 7)
        [(150, ''Task completed'', None, 10), (400, ''Task completed'', Some 3, 20)])) = 2"
proof -
  have h: "points_total (fresh_user 7) = sum_list (map pe_amount (points_earned (fresh_user 7)))"
    by (simp add: fresh_user_def)
  have e: "points_earned (fresh_user 7) = []"
    by (simp add: fresh_user_def)
  have "points_total (foldl addPoints_call (fresh_user 7)
        [(150, ''Task completed'', None, 10), (400, ''Task completed'', Some 3, 20)])
          = sum_list (map fst [(150::int, ''Task completed'', None :: nat option, 10::nat), (400, ''Task completed'', Some 3, 20)])
     \<and> length (points_earned (foldl addPoints_call (fresh_user 7)
        [(150, ''Task completed'', None, 10), (400, ''Task completed'', Some 3, 20)]))
          = length [(150::int, ''Task completed'', None :: nat option, 10::nat), (400, ''Task completed'', Some 3, 20)]"
    using addPoints_ledger [OF h, of "[(150, ''Task completed'', None, 10), (400, ''Task completed'', Some 3, 20)]"] e
    by blast
  then show ?thesis using h by simp
qed

subsection \<open>Badge evaluator\<close>

lemma foldl_award:
  "foldl (award pts ex now) bs ths =
     bs @ map (new_badge now) (filter (\<lambda>th. pts \<ge> fst th \<and> fst (snd th) \<notin> set ex) ths)"
  by (induction ths arbitrary: bs) (simp_all add: award_def)

lemma b_name_new_badge: "b_name (new_badge now th) = fst (snd th)"
  by (cases th) (simp add: new_badge_def)

lemma badges_checkAndAwardBadges:
  "badges (checkAndAwardBadges now u) =
     badges u @ map (new_badge now)
       (filter (\<lambda>th. points_total u \<ge> fst th \<and> fst (snd th) \<notin> set (map b_name (badges u))) badgeThresholds)"
  by (simp add: checkAndAwardBadges_def Let_def foldl_award)

lemma spec_badge_table_eq: "spec_badge_table = map (\<lambda>th. (fst th, fst (snd th))) badgeThresholds"
  by (simp add: spec_badge_table_def badgeThresholds_def)

lemma distinct_threshold_names: "distinct (map (\<lambda>th. fst (snd th)) badgeThresholds)"
  by (simp add: badgeThresholds_def)


lemma added_names:
  "map b_name (map (new_badge now) (filter (\<lambda>th. T \<ge> fst th \<and> fst (snd th) \<notin> H) badgeThresholds))
     = map snd (filter (\<lambda>e. fst e \<le> T \<and> snd e \<notin> H) spec_badge_table)"
  by (simp add: spec_badge_table_eq filter_map comp_def b_name_new_badge)

lemma second_run_adds_nothing:
  "filter (\<lambda>th. T \<ge> fst th \<and> fst (snd th) \<notin>
      set (map b_name (bs @ map (new_badge now) (filter (\<lambda>th. T \<ge> fst th \<and> fst (snd th) \<notin> set (map b_name bs)) ths)))) ths = []"
  by (auto simp: filter_empty_conv b_name_new_badge image_iff) blast

lemma checkAndAwardBadges_idem:
  "checkAndAwardBadges now' (checkAndAwardBadges now u) = checkAndAwardBadges now u"
proof -
  have "badges (checkAndAwardBadges now' (checkAndAwardBadges now u)) = badges (checkAndAwardBadges now u)"
    apply (subst badges_checkAndAwardBadges)
    apply (simp only: checkAndAwardBadges_points)
    apply (subst (2) badges_checkAndAwardBadges)
    apply (simp only: second_run_adds_nothing)
    apply simp
    done
  then show ?thesis
    by (simp add: checkAndAwardBadges_def Let_def)
qed

lemma added_distinct:
  "distinct (map snd (filter P spec_badge_table))"
  by (rule distinct_map_filter) (simp add: spec_badge_table_def)

text \<open>
  Claim C2. At every total and for every list of badges held, \<open>checkAndAwardBadges\<close>
  keeps the badges held, in place, and appends exactly the names of the table whose
  threshold is at most the total and which are not held, each once; badge names that were
  distinct stay distinct; a second run at the same total changes nothing.
\<close>

theorem checkAndAwardBadges_exact:
  "take (length (badges u)) (badges (checkAndAwardBadges now u)) = badges u
   \<and> map b_name (drop (length (badges u)) (badges (checkAndAwardBadges now u)))
       = map snd (filter (\<lambda>e. fst e \<le> points_total u \<and> snd e \<notin> set (map b_name (badges u)))
                    spec_badge_table)
   \<and> distinct (map b_name (drop (length (badges u)) (badges (checkAndAwardBadges now u))))
   \<and> (distinct (map b_name (badges u)) \<longrightarrow> distinct (map b_name (badges (checkAndAwardBadges now u))))
   \<and> checkAndAwardBadges now' (checkAndAwardBadges now u) = checkAndAwardBadges now u"
proof -
  let ?new = "map (new_badge now)
       (filter (\<lambda>th. points_total u \<ge> fst th \<and> fst (snd th) \<notin> set (map b_name (badges u))) badgeThresholds)"
  let ?names = "map snd (filter (\<lambda>e. fst e \<le> points_total u \<and> snd e \<notin> set (map b_name (badges u)))
                    spec_badge_table)"
  have b: "badges (checkAndAwardBadges now u) = badges u @ ?new"
    by (rule badges_checkAndAwardBadges)
  have n: "map b_name ?new = ?names"
    by (rule added_names)
  have d: "distinct ?names"
    by (rule added_distinct)
  have disj: "set ?names \<inter> set (map b_name (badges u)) = {}"
    by auto
  have keep: "take (length (badges u)) (badges (checkAndAwardBadges now u)) = badges u"
    by (simp add: b)
  have new: "map b_name (drop (length (badges u)) (badges (checkAndAwardBadges now u))) = ?names"
    using n by (simp add: b)
  have all: "distinct (map b_name (badges u)) \<longrightarrow> distinct (map b_name (badges (checkAndAwardBadges now u)))"
  proof
    assume "distinct (map b_name (badges u))"
    moreover have "map b_name (badges (checkAndAwardBadges now u)) = map b_name (badges u) @ ?names"
      using n by (simp add: b)
    ultimately show "distinct (map b_name (badges (checkAndAwardBadges now u)))"
      using d disj by (simp only: distinct_append) blast
  qed
  from keep new d all checkAndAwardBadges_idem show ?thesis
    by (simp only:) 
qed

theorem checkAndAwardBadges_exact_witness:
  "distinct (map b_name (badges example_holder))
   \<and> distinct (map b_name (badges (checkAndAwardBadges 9 example_holder)))
   \<and> map b_name (drop (length (badges example_holder)) (badges (checkAndAwardBadges 9 example_holder)))
       = [''Bronze Contributor'']"
proof -
  have h: "distinct (map b_name (badges example_holder))"
    by (simp add: example_holder_def fresh_user_def)
  have v: "map snd (filter (\<lambda>e. fst e \<le> points_total example_holder
                \<and> snd e \<notin> set (map b_name (badges example_holder))) spec_badge_table)
             = [''Bronze Contributor'']"
    by (simp add: example_holder_def fresh_user_def spec_badge_table_def)
  show ?thesis
    using h v checkAndAwardBadges_exact [of example_holder 9 9] by simp
qed

subsection \<open>Project volunteer roster\<close>

lemma find_user_None: "(find (\<lambda>v. v_user v = userId) vs = None) = (userId \<notin> v_user ` set vs)"
  by (auto simp: find_None_iff)

text \<open>
  Claim C3. After every successful roster mutation (\<open>addVolunteer\<close>, the apply
  handler, \<open>updateVolunteerStatus\<close>), from any project state,
  \<open>requirements.volunteers.current\<close> is the number of roster entries whose status is
  accepted.
\<close>

theorem roster_current_is_accepted_count:
  "(fst (addVolunteer userId vrole now p) = None \<longrightarrow>
      volunteers_current (snd (addVolunteer userId vrole now p))
        = int (length (filter (\<lambda>v. v_status v = Accepted)
                 (volunteers (snd (addVolunteer userId vrole now p))))))
   \<and> (fst (updateVolunteerStatus userId st p) = None \<longrightarrow>
      volunteers_current (snd (updateVolunteerStatus userId st p))
        = int (length (filter (\<lambda>v. v_status v = Accepted)
                 (volunteers (snd (updateVolunteerStatus userId st p))))))
   \<and> (fst (apply_route db projectId userId now) = Response 200 ''Application submitted successfully'' \<longrightarrow>
      (\<exists>p'. snd (apply_route db projectId userId now) projectId = Some p'
          \<and> volunteers_current p'
               = int (length (filter (\<lambda>v. v_status v = Accepted) (volunteers p')))))"
proof (intro conjI impI)
  assume "fst (addVolunteer userId vrole now p) = None"
  then show "volunteers_current (snd (addVolunteer userId vrole now p))
        = int (length (filter (\<lambda>v. v_status v = Accepted)
                 (volunteers (snd (addVolunteer userId vrole now p)))))"
    by (auto simp: addVolunteer_def project_save_def accepted_count_def split: option.splits if_splits)
next
  assume "fst (updateVolunteerStatus userId st p) = None"
  then show "volunteers_current (snd (updateVolunteerStatus userId st p))
        = int (length (filter (\<lambda>v. v_status v = Accepted)
                 (volunteers (snd (updateVolunteerStatus userId st p)))))"
    by (auto simp: updateVolunteerStatus_def project_save_def accepted_count_def Let_def
             split: option.splits if_splits)
next
  assume "fst (apply_route db projectId userId now) = Response 200 ''Application submitted successfully''"
  then show "\<exists>p'. snd (apply_route db projectId userId now) projectId = Some p'
          \<and> volunteers_current p'
               = int (length (filter (\<lambda>v. v_status v = Accepted) (volunteers p')))"
    by (auto simp: apply_route_def project_save_def accepted_count_def split: option.splits if_splits)
qed

theorem roster_current_is_accepted_count_witness:
  "fst (addVolunteer 2 ''volunteer'' 5 example_project) = None
   \<and> volunteers_current (snd (addVolunteer 2 ''volunteer'' 5 example_project)) = 1
   \<and> fst (updateVolunteerStatus 1 Rejected example_project) = None
   \<and> volunteers_current (snd (updateVolunteerStatus 1 Rejected example_project)) = 0
   \<and> fst (apply_route [7 \<mapsto> example_project] 7 2 5) = Response 200 ''Application submitted successfully''
   \<and> (\<exists>p'. snd (apply_route [7 \<mapsto> example_project] 7 2 5) 7 = Some p' \<and> volunteers_current p' = 1)"
proof -
  have a: "fst (addVolunteer 2 ''volunteer'' 5 example_project) = None"
    by (simp add: addVolunteer_def example_project_def)
  have b: "fst (updateVolunteerStatus 1 Rejected example_project) = None"
    by (simp add: updateVolunteerStatus_def example_project_def Let_def)
  have c: "fst (apply_route [7 \<mapsto> example_project] 7 2 5) = Response 200 ''Application submitted successfully''"
    by (simp add: apply_route_def example_project_def)
  have va: "volunteers (snd (addVolunteer 2 ''volunteer'' 5 example_project))
              = volunteers example_project @
                  [\<lparr>v_user = 2, v_joinedDate = 5, v_status = Applied, v_role = ''volunteer'',
                    v_hoursContributed = 0\<rparr>]"
    by (simp add: addVolunteer_def example_project_def project_save_def)
  have vb: "volunteers (snd (updateVolunteerStatus 1 Rejected example_project))
              = [\<lparr>v_user = 1, v_joinedDate = 2, v_status = Rejected, v_role = ''volunteer'',
                    v_hoursContributed = 0\<rparr>]"
    by (simp add: updateVolunteerStatus_def example_project_def project_save_def Let_def)
  have vc: "snd (apply_route [7 \<mapsto> example_project] 7 2 5) 7
              = Some (snd (addVolunteer 2 ''volunteer'' 5 example_project))"
    by (simp add: apply_route_def addVolunteer_def example_project_def)
  from roster_current_is_accepted_count
         [where userId = 2 and vrole = "''volunteer''" and now = 5 and p = example_project]
       roster_current_is_accepted_count
         [where userId = 1 and st = Rejected and p = example_project] a b
  have "volunteers_current (snd (addVolunteer 2 ''volunteer'' 5 example_project))
        = int (length (filter (\<lambda>v. v_status v = Accepted)
                 (volunteers (snd (addVolunteer 2 ''volunteer'' 5 example_project)))))"
   and "volunteers_current (snd (updateVolunteerStatus 1 Rejected example_project))
        = int (length (filter (\<lambda>v. v_status v = Accepted)
                 (volunteers (snd (updateVolunteerStatus 1 Rejected example_project)))))"
    by blast+
  then have "volunteers_current (snd (addVolunteer 2 ''volunteer'' 5 example_project)) = 1"
    and "volunteers_current (snd (updateVolunteerStatus 1 Rejected example_project)) = 0"
    by (simp_all only: va vb) (simp_all add: example_project_def)
  with a b c vc show ?thesis by simp
qed

text \<open>
  Claim C4. \<open>addVolunteer\<close> fails with the duplicate-application error when the user is
  in the roster, whatever the status of that entry; otherwise it fails with the
  project-full error when \<open>current \<ge> total\<close>; otherwise it appends exactly one entry for
  the user with status applied. In both failures the project is unchanged.
\<close>

theorem addVolunteer_apply:
  "(userId \<in> v_user ` set (volunteers p) \<longrightarrow>
      addVolunteer userId vrole now p = (Some AlreadyApplied, p))
   \<and> (userId \<notin> v_user ` set (volunteers p) \<and> volunteers_current p \<ge> volunteers_total p \<longrightarrow>
      addVolunteer userId vrole now p = (Some ProjectFull, p))
   \<and> (userId \<notin> v_user ` set (volunteers p) \<and> volunteers_current p < volunteers_total p \<longrightarrow>
      fst (addVolunteer userId vrole now p) = None
      \<and> volunteers (snd (addVolunteer userId vrole now p))
          = volunteers p @ [\<lparr>v_user = userId, v_joinedDate = now, v_status = Applied,
                             v_role = vrole, v_hoursContributed = 0\<rparr>])"
proof (cases "find (\<lambda>v. v_user v = userId) (volunteers p)")
  case None
  then have "userId \<notin> v_user ` set (volunteers p)" by (simp add: find_user_None)
  with None show ?thesis
    by (simp add: addVolunteer_def project_save_def)
next
  case (Some v)
  then have "userId \<in> v_user ` set (volunteers p)"
    using find_user_None [of userId "volunteers p"] by simp
  with Some show ?thesis
    by (simp add: addVolunteer_def)
qed

theorem addVolunteer_apply_witness:
  "1 \<in> v_user ` set (volunteers example_project)
   \<and> addVolunteer 1 ''volunteer'' 5 example_project = (Some AlreadyApplied, example_project)
   \<and> 2 \<notin> v_user ` set (volunteers full_project)
   \<and> volunteers_current full_project \<ge> volunteers_total full_project
   \<and> addVolunteer 2 ''volunteer'' 5 full_project = (Some ProjectFull, full_project)
   \<and> 2 \<notin> v_user ` set (volunteers example_project)
   \<and> volunteers_current example_project < volunteers_total example_project
   \<and> fst (addVolunteer 2 ''volunteer'' 5 example_project) = None
   \<and> length (volunteers (snd (addVolunteer 2 ''volunteer'' 5 example_project))) = 2"
proof -
  have a: "1 \<in> v_user ` set (volunteers example_project)"
    by (simp add: example_project_def)
  have b: "2 \<notin> v_user ` set (volunteers full_project)"
          "volunteers_current full_project \<ge> volunteers_total full_project"
    by (simp_all add: full_project_def example_project_def)
  have c: "2 \<notin> v_user ` set (volunteers example_project)"
          "volunteers_current example_project < volunteers_total example_project"
    by (simp_all add: example_project_def)
  have l: "length (volunteers example_project) = 1"
    by (simp add: example_project_def)
  show ?thesis
    using a b c l
      addVolunteer_apply [of 1 example_project "''volunteer''" 5]
      addVolunteer_apply [of 2 full_project "''volunteer''" 5]
      addVolunteer_apply [of 2 example_project "''volunteer''" 5]
    by simp
qed

text \<open>
  The apply handler makes the same decisions as \<open>addVolunteer\<close> on an active project,
  and refuses every application to a project that is not active.
\<close>

lemma apply_route_active:
  assumes "db projectId = Some p" and "project_status p = Active"
  shows "apply_route db projectId userId now =
     (case addVolunteer userId ''volunteer'' now p of
        (Some AlreadyApplied, _) \<Rightarrow> (Response 400 ''You have already applied for this project'', db)
      | (Some _, _) \<Rightarrow> (Response 400 ''Project is full'', db)
      | (None, p') \<Rightarrow> (Response 200 ''Application submitted successfully'', db(projectId \<mapsto> p')))"
  using assms by (simp add: apply_route_def addVolunteer_def split: option.splits)

lemma apply_route_inactive:
  assumes "db projectId = Some p" and "project_status p \<noteq> Active"
  shows "apply_route db projectId userId now = (Response 400 ''Project is not accepting applications'', db)"
  using assms by (simp add: apply_route_def)

subsection \<open>Rounding to double precision\<close>

lemma ilog2_lower: "0 < n \<Longrightarrow> 2 ^ ilog2 n \<le> n"
proof (induction n rule: ilog2.induct)
  case (1 n)
  show ?case
  proof (cases "n < 2")
    case True
    with "1.prems" show ?thesis by (simp add: ilog2.simps)
  next
    case False
    then have "0 < n div 2" by simp
    with False "1.IH" have "2 ^ ilog2 (n div 2) \<le> n div 2" by simp
    then have "2 * 2 ^ ilog2 (n div 2) \<le> 2 * (n div 2)" by simp
    also have "\<dots> \<le> n" by simp
    finally show ?thesis using False by (simp add: ilog2.simps)
  qed
qed

lemma ilog2_upper: "n < 2 ^ Suc (ilog2 n)"
proof (induction n rule: ilog2.induct)
  case (1 n)
  show ?case
  proof (cases "n < 2")
    case True
    then show ?thesis by (simp add: ilog2.simps)
  next
    case False
    with "1.IH" have "n div 2 < 2 ^ Suc (ilog2 (n div 2))" by simp
    then have "n < 2 * 2 ^ Suc (ilog2 (n div 2))" by linarith
    then show ?thesis using False by (simp add: ilog2.simps)
  qed
qed

lemma clog2_upper: "n \<le> 2 ^ clog2 n"
proof (cases "n \<le> 1")
  case True
  then show ?thesis by (simp add: clog2_def)
next
  case False
  have "n - 1 < 2 ^ Suc (ilog2 (n - 1))" by (rule ilog2_upper)
  then have "n \<le> 2 ^ Suc (ilog2 (n - 1))" using False by linarith
  then show ?thesis using False by (simp add: clog2_def)
qed

lemma binade_lower:
  assumes "0 < x"
  shows "power_int 2 (binade x) \<le> x"
proof (cases "1 \<le> x")
  case True
  then have pos: "0 < nat \<lfloor>x\<rfloor>" by simp
  have "(2::nat) ^ ilog2 (nat \<lfloor>x\<rfloor>) \<le> nat \<lfloor>x\<rfloor>"
    using pos by (rule ilog2_lower)
  then have "(of_nat (2 ^ ilog2 (nat \<lfloor>x\<rfloor>)) :: rat) \<le> of_nat (nat \<lfloor>x\<rfloor>)"
    by (simp only: of_nat_le_iff)
  also have "\<dots> = of_int \<lfloor>x\<rfloor>" using True by simp
  also have "\<dots> \<le> x" by simp
  finally show ?thesis using True by (simp add: binade_def)
next
  case False
  let ?c = "clog2 (nat \<lceil>1 / x\<rceil>)"
  have "1 / x \<le> of_int \<lceil>1 / x\<rceil>" by simp
  also have "\<dots> = of_nat (nat \<lceil>1 / x\<rceil>)" using assms by simp
  also have "\<dots> \<le> of_nat (2 ^ ?c)"
    by (simp only: of_nat_le_iff clog2_upper)
  finally have "1 / x \<le> 2 ^ ?c" by simp
  then have "1 \<le> x * 2 ^ ?c" using assms by (simp add: field_simps)
  then have "1 / 2 ^ ?c \<le> x" by (simp add: field_simps)
  then show ?thesis using False by (simp add: binade_def power_int_minus field_simps)
qed

text \<open>
  With \<open>binade_lower\<close>: \<open>2 ^ binade x \<le> x < 2 ^ (binade x + 1)\<close>, so the scaled value that
  \<open>fl\<close> rounds to an integer lies in \<open>[2^52, 2^53)\<close>.
\<close>

lemma clog2_lower: "2 \<le> n \<Longrightarrow> 2 ^ (clog2 n - 1) < n"
proof -
  assume n: "2 \<le> n"
  then have "0 < n - 1" by simp
  then have "2 ^ ilog2 (n - 1) \<le> n - 1" by (rule ilog2_lower)
  then show ?thesis using n by (simp add: clog2_def)
qed

lemma binade_upper:
  assumes "0 < x"
  shows "x < power_int 2 (binade x + 1)"
proof (cases "1 \<le> x")
  case True
  have "nat \<lfloor>x\<rfloor> < 2 ^ Suc (ilog2 (nat \<lfloor>x\<rfloor>))" by (rule ilog2_upper)
  then have "int (nat \<lfloor>x\<rfloor>) < int (2 ^ Suc (ilog2 (nat \<lfloor>x\<rfloor>)))"
    by (simp only: of_nat_less_iff)
  then have "\<lfloor>x\<rfloor> < 2 ^ Suc (ilog2 (nat \<lfloor>x\<rfloor>))" using True by simp
  then have "\<lfloor>x\<rfloor> + 1 \<le> 2 ^ Suc (ilog2 (nat \<lfloor>x\<rfloor>))" by simp
  then have "(of_int (\<lfloor>x\<rfloor> + 1) :: rat) \<le> of_int (2 ^ Suc (ilog2 (nat \<lfloor>x\<rfloor>)))"
    by (simp only: of_int_le_iff)
  moreover have "x < of_int (\<lfloor>x\<rfloor> + 1)" by linarith
  ultimately have "x < 2 ^ Suc (ilog2 (nat \<lfloor>x\<rfloor>))" by simp
  moreover have "power_int (2::rat) (int (ilog2 (nat \<lfloor>x\<rfloor>)) + 1) = 2 ^ Suc (ilog2 (nat \<lfloor>x\<rfloor>))"
    by (simp add: power_int_add)
  ultimately show ?thesis using True
    by (simp only: binade_def if_True)
next
  case False
  define n where "n = nat \<lceil>1 / x\<rceil>"
  define c where "c = clog2 n"
  from False assms have big: "1 < 1 / x" by simp
  then have "2 \<le> \<lceil>1 / x\<rceil>" by linarith
  then have n2: "2 \<le> n" unfolding n_def by linarith
  then have c1: "1 \<le> c" by (simp add: clog2_def c_def)
  have "2 ^ (c - 1) < n" unfolding c_def using n2 by (rule clog2_lower)
  then have "2 ^ (c - 1) \<le> n - 1" by linarith
  then have "(of_nat (2 ^ (c - 1)) :: rat) \<le> of_nat (n - 1)" by (simp only: of_nat_le_iff)
  also have "(of_nat (n - 1) :: rat) = of_nat n - 1" using n2 by (simp add: of_nat_diff)
  also have "(of_nat n :: rat) = of_int \<lceil>1 / x\<rceil>"
  proof -
    have "0 \<le> \<lceil>1 / x\<rceil>" using big by linarith
    then have "int n = \<lceil>1 / x\<rceil>" unfolding n_def by linarith
    then show ?thesis by (metis of_int_of_nat_eq)
  qed
  also have "of_int \<lceil>1 / x\<rceil> - 1 < 1 / x" by linarith
  finally have "2 ^ (c - 1) < 1 / x" by simp
  then have "x * 2 ^ (c - 1) < 1" using assms by (simp add: field_simps)
  then have "x < 1 / 2 ^ (c - 1)" by (simp add: field_simps)
  moreover have "power_int (2::rat) (- int c + 1) = 1 / 2 ^ (c - 1)"
  proof -
    have "- int c + 1 = - int (c - 1)" using c1 by simp
    then show ?thesis by (simp only: power_int_minus power_int_of_nat inverse_eq_divide)
  qed
  ultimately have "x < power_int 2 (- int c + 1)" by simp
  then show ?thesis using False by (simp only: binade_def if_False c_def n_def)
qed

text \<open>Known binary64 values: the significand of 0.1, and the two roundings behind 57.49999999999999.\<close>

lemma fl_examples:
  "fl (1 / 10) = 7205759403792794 / 2 ^ 56"
  "fl 100 = 100"
  "fl (23 / 40) * 100 = 2589569785738035 / 2 ^ 52 * 100"
  "fl (fl (23 / 40) * 100) = 8092405580431359 / 2 ^ 47"
  by code_simp+

lemma round_half_even_err: "\<bar>of_int (round_half_even y) - y\<bar> \<le> 1 / 2"
proof -
  have "of_int \<lfloor>y\<rfloor> \<le> y" "y < of_int \<lfloor>y\<rfloor> + 1" by linarith+
  then show ?thesis
    by (auto simp: round_half_even_def Let_def)
qed

lemma fl_err: "\<bar>fl x - x\<bar> \<le> \<bar>x\<bar> / 2 ^ 53"
proof (cases "x = 0")
  case True
  then show ?thesis by (simp add: fl_def)
next
  case False
  define e where "e = binade \<bar>x\<bar> - 52"
  define P :: rat where "P = power_int 2 e"
  define s where "s = \<bar>x\<bar> / P"
  have Ppos: "0 < P" by (simp add: P_def)
  have flx: "fl x = sgn x * of_int (round_half_even s) * P"
    using False by (simp add: fl_def e_def P_def s_def Let_def)
  have x: "x = sgn x * s * P"
    using Ppos by (simp add: s_def sgn_mult_abs)
  have "fl x - x = sgn x * P * (of_int (round_half_even s) - s)"
    by (subst (2) x, subst flx) (simp add: algebra_simps)
  then have "\<bar>fl x - x\<bar> = P * \<bar>of_int (round_half_even s) - s\<bar>"
    using False Ppos by (simp add: abs_mult abs_sgn_eq)
  also have "\<dots> \<le> P * (1 / 2)"
    using Ppos round_half_even_err by (intro mult_left_mono) auto
  finally have 1: "\<bar>fl x - x\<bar> \<le> P / 2" by simp
  have "power_int 2 (binade \<bar>x\<bar>) \<le> \<bar>x\<bar>"
    using False by (intro binade_lower) simp
  moreover have "power_int (2::rat) (binade \<bar>x\<bar>) = P * 2 ^ 52"
    by (simp add: P_def e_def power_int_diff)
  ultimately have "P * 2 ^ 52 \<le> \<bar>x\<bar>" by simp
  then have "P / 2 \<le> \<bar>x\<bar> / 2 ^ 53" by simp
  with 1 show ?thesis by linarith
qed


lemma percent_err:
  "\<bar>fl (fl x * 100) - 100 * x\<bar> \<le> 300 * \<bar>x\<bar> / 2 ^ 53"
proof -
  define u :: rat where "u = 1 / 2 ^ 53"
  have u: "0 < u" "u \<le> 1" by (simp_all add: u_def)
  have 1: "\<bar>fl x - x\<bar> \<le> \<bar>x\<bar> * u"
    using fl_err [of x] by (simp add: u_def)
  then have 2: "\<bar>fl x\<bar> \<le> \<bar>x\<bar> * (1 + u)"
    by (simp add: algebra_simps)
  have "\<bar>fl (fl x * 100) - fl x * 100\<bar> \<le> \<bar>fl x * 100\<bar> * u"
    using fl_err [of "fl x * 100"] by (simp add: u_def)
  also have "\<dots> = 100 * u * \<bar>fl x\<bar>" by (simp add: abs_mult)
  also have "\<dots> \<le> 100 * u * (\<bar>x\<bar> * (1 + u))"
    using 2 u by (intro mult_left_mono) auto
  finally have 3: "\<bar>fl (fl x * 100) - fl x * 100\<bar> \<le> 100 * u * (\<bar>x\<bar> * (1 + u))" .
  have "u * \<bar>x\<bar> * u \<le> 1 * \<bar>x\<bar> * u"
    using u by (intro mult_right_mono) auto
  then have 4: "100 * u * (\<bar>x\<bar> * (1 + u)) \<le> 200 * \<bar>x\<bar> * u"
    by (simp add: algebra_simps)
  have "fl (fl x * 100) - 100 * x = (fl (fl x * 100) - fl x * 100) + 100 * (fl x - x)"
    by simp
  then have "\<bar>fl (fl x * 100) - 100 * x\<bar>
               \<le> \<bar>fl (fl x * 100) - fl x * 100\<bar> + \<bar>100 * (fl x - x)\<bar>"
    by (simp only: abs_triangle_ineq)
  also have "\<bar>100 * (fl x - x)\<bar> = 100 * \<bar>fl x - x\<bar>"
    by (simp only: abs_mult abs_numeral)
  finally have "\<bar>fl (fl x * 100) - 100 * x\<bar> \<le> \<bar>fl (fl x * 100) - fl x * 100\<bar> + 100 * \<bar>fl x - x\<bar>" .
  also have "\<dots> \<le> 200 * \<bar>x\<bar> * u + 100 * (\<bar>x\<bar> * u)"
    using 1 3 4 by linarith
  finally show ?thesis by (simp add: u_def)
qed

text \<open>The exact value: 100 a / t rounded to the nearest integer, a tie going up.\<close>

lemma exact_round: "0 < t \<Longrightarrow> Math_round (100 * of_int a / of_nat t) = (200 * a + int t) div (2 * int t)"
proof -
  assume t: "0 < t"
  have "100 * of_int a / of_nat t + 1 / 2 = (of_int (200 * a + int t) :: rat) / of_int (2 * int t)"
    using t by (simp add: field_simps)
  then show ?thesis
    by (simp only: Math_round_def floor_divide_of_int_eq)
qed

lemma percent_near:
  fixes a :: int and t :: nat
  assumes t: "0 < t" and a: "\<bar>a\<bar> \<le> 2 ^ 43"
  shows "\<bar>fl (fl (of_int a / of_nat t) * 100) - 100 * of_int a / of_nat t\<bar> < 1 / (2 * of_nat t)"
proof -
  have "\<bar>fl (fl (of_int a / of_nat t) * 100) - 100 * (of_int a / of_nat t)\<bar>
          \<le> 300 * \<bar>of_int a / of_nat t :: rat\<bar> / 2 ^ 53"
    by (rule percent_err)
  also have "\<dots> = (300 * of_int \<bar>a\<bar> / 2 ^ 53) / of_nat t"
    by (simp add: abs_divide)
  also have "\<dots> < (1 / 2) / of_nat t"
  proof -
    have "300 * \<bar>a\<bar> < 2 ^ 52" using a by simp
    then have "(of_int (300 * \<bar>a\<bar>) :: rat) < of_int (2 ^ 52)" by (simp only: of_int_less_iff)
    then have A: "300 * (of_int \<bar>a\<bar> :: rat) / 2 ^ 53 < 1 / 2" by simp
    have tp: "(0::rat) < of_nat t" using t by simp
    from divide_strict_right_mono [OF A tp] show ?thesis .
  qed
  finally show ?thesis by simp
qed

lemma round_near:
  fixes a :: int and t :: nat and d :: rat
  assumes t: "0 < t" and d: "\<bar>d - 100 * of_int a / of_nat t\<bar> < 1 / (2 * of_nat t)"
  shows "if (200 * a + int t) mod (2 * int t) = 0
         then Math_round d = (200 * a + int t) div (2 * int t)
            \<or> Math_round d = (200 * a + int t) div (2 * int t) - 1
         else Math_round d = (200 * a + int t) div (2 * int t)"
proof -
  define m where "m = 200 * a + int t"
  define k where "k = m div (2 * int t)"
  define r where "r = m mod (2 * int t)"
  have r: "0 \<le> r" "r < 2 * int t" using t by (simp_all add: r_def)
  have m: "m = k * (2 * int t) + r" by (simp only: k_def r_def div_mult_mod_eq)
  have T: "(0::rat) < 2 * of_nat t" using t by simp
  have y: "100 * of_int a / of_nat t + 1 / 2 = (of_int k :: rat) + of_int r / (2 * of_nat t)"
  proof -
    have "100 * of_int a / of_nat t + 1 / 2 = (of_int m :: rat) / (2 * of_nat t)"
      using t by (simp add: m_def field_simps)
    also have "\<dots> = (of_int k * (2 * of_nat t) + of_int r) / (2 * of_nat t)"
      by (subst m) simp
    also have "\<dots> = of_int k + of_int r / (2 * of_nat t)"
      using t by (simp add: field_simps)
    finally show ?thesis .
  qed
  have lo: "of_int k + (of_int r - 1) / (2 * of_nat t) < d + 1 / 2"
   and hi: "d + 1 / 2 < of_int k + (of_int r + 1) / (2 * of_nat t)"
    using d y by (simp_all add: abs_less_iff diff_divide_distrib add_divide_distrib) 
  show ?thesis
  proof (cases "r = 0")
    case False
    then have r1: "1 \<le> r" and r2: "r + 1 \<le> 2 * int t" using r by simp_all
    have "(of_int 1 :: rat) \<le> of_int r" using r1 by (simp only: of_int_le_iff)
    moreover have "(of_int (r + 1) :: rat) \<le> of_int (2 * int t)" using r2 by (simp only: of_int_le_iff)
    ultimately have "(0::rat) \<le> of_int r - 1" "(of_int r :: rat) + 1 \<le> 2 * of_nat t"
      by simp_all
    then have "(0::rat) \<le> (of_int r - 1) / (2 * of_nat t)" "(of_int r + 1) / (2 * of_nat t) \<le> (1::rat)"
      using T by simp_all
    with lo hi have "of_int k \<le> d + 1 / 2" "d + 1 / 2 < of_int k + 1" by linarith+
    then have "\<lfloor>d + 1 / 2\<rfloor> = k" by (intro floor_unique)
    with False show ?thesis by (simp add: Math_round_def k_def r_def m_def)
  next
    case True
    have "(1::rat) / (2 * of_nat t) \<le> 1"
      using t by simp
    with lo hi True have b: "of_int k - 1 \<le> d + 1 / 2" "d + 1 / 2 < of_int k + 1"
      by simp_all
    have "\<lfloor>d + 1 / 2\<rfloor> = k \<or> \<lfloor>d + 1 / 2\<rfloor> = k - 1"
    proof (cases "of_int k \<le> d + 1 / 2")
      case True
      with b have "\<lfloor>d + 1 / 2\<rfloor> = k" by (intro floor_unique)
      then show ?thesis ..
    next
      case False
      with b have "of_int (k - 1) \<le> d + 1 / 2" "d + 1 / 2 < of_int (k - 1) + 1" by simp_all
      then have "\<lfloor>d + 1 / 2\<rfloor> = k - 1" by (intro floor_unique)
      then show ?thesis ..
    qed
    with True show ?thesis by (simp add: Math_round_def k_def r_def m_def)
  qed
qed


lemma round_percent_exact:
  fixes a :: int and t :: nat
  assumes "0 < t" and "\<bar>a\<bar> \<le> 2 ^ 43"
  shows "if (200 * a + int t) mod (2 * int t) = 0
         then round_percent a t = Num ((200 * a + int t) div (2 * int t))
            \<or> round_percent a t = Num ((200 * a + int t) div (2 * int t) - 1)
         else round_percent a t = Num ((200 * a + int t) div (2 * int t))"
  using round_near [OF assms(1) percent_near [OF assms]] assms(1)
  by (simp add: round_percent_def)

subsection \<open>Task lifecycle\<close>

lemma task_save_fields:
  "status (task_save t) = status t"
  "completedDate (task_save t) = completedDate t"
  "progress_percentage (task_save t) = progress_percentage t"
  "progress_updates (task_save t) = progress_updates t"
  "deliverables (task_save t) = deliverables t"
  "assignedTo (task_save t) = assignedTo t"
  "task_project (task_save t) = task_project t"
  "task_points_total (task_save t) = task_points_base t + task_points_bonus t"
  by (simp_all add: task_save_def)

lemma clamp_100: "(min 100 (max 0 p) = (100::int)) = (p \<ge> 100)"
  by auto

text \<open>
  Claim C5, amended. \<open>updateProgress\<close> sets the percentage to the input clamped into
  \<open>[0, 100]\<close>, appends exactly one update record, and moves the task to completed,
  stamping \<open>completedDate\<close>, exactly when the clamped value is 100 and the task was not
  completed; otherwise status and date are untouched. Called with 100 it always leaves the
  status completed; \<open>completedDate\<close> is then set unless the task was already completed
  without a date, in which case it stays unset. A second call with 100 keeps the status
  and does not change the date.
\<close>

theorem updateProgress_effect:
  "progress_percentage (updateProgress p m w att now t) = Num (min 100 (max 0 p))
   \<and> 0 \<le> min 100 (max 0 p) \<and> min 100 (max 0 p) \<le> 100
   \<and> progress_updates (updateProgress p m w att now t)
       = progress_updates t @
           [\<lparr>pu_message = m, pu_date = now, pu_updatedBy = w, pu_attachments = att\<rparr>]
   \<and> (if min 100 (max 0 p) = 100 \<and> status t \<noteq> Completed
       then status (updateProgress p m w att now t) = Completed
          \<and> completedDate (updateProgress p m w att now t) = Some now
       else status (updateProgress p m w att now t) = status t
          \<and> completedDate (updateProgress p m w att now t) = completedDate t)
   \<and> status (updateProgress 100 m w att now t) = Completed
   \<and> (completedDate (updateProgress 100 m w att now t) = None)
       = (status t = Completed \<and> completedDate t = None)
   \<and> status (updateProgress 100 m' w' att' now' (updateProgress 100 m w att now t)) = Completed
   \<and> completedDate (updateProgress 100 m' w' att' now' (updateProgress 100 m w att now t))
       = completedDate (updateProgress 100 m w att now t)"
  by (simp add: updateProgress_def Let_def task_save_fields clamp_100)

theorem updateProgress_effect_witness:
  "status (new_task 1 2) \<noteq> Completed
   \<and> status (updateProgress 100 ''done'' 2 [] 9 (new_task 1 2)) = Completed
   \<and> completedDate (updateProgress 100 ''done'' 2 [] 9 (new_task 1 2)) = Some 9
   \<and> progress_percentage (updateProgress 250 ''done'' 2 [] 9 (new_task 1 2)) = Num 100"
  using updateProgress_effect [of 100 "''done''" 2 "[]" 9 "new_task 1 2"]
        updateProgress_effect [of 250 "''done''" 2 "[]" 9 "new_task 1 2"]
  by (simp add: new_task_def)

text \<open>
  The claim as stated fails on a completed task that has no \<open>completedDate\<close> (a task
  created or edited with that status): the guard on the status skips the stamp.
\<close>

theorem updateProgress_date_counterexample:
  "status (updateProgress 100 ''done'' 2 [] 9 ((new_task 1 2)\<lparr>status := Completed\<rparr>)) = Completed
   \<and> completedDate (updateProgress 100 ''done'' 2 [] 9 ((new_task 1 2)\<lparr>status := Completed\<rparr>)) = None"
  by (simp add: updateProgress_def Let_def task_save_fields new_task_def)

lemma completeDeliverable_status:
  "status (snd (completeDeliverable i f now t)) = status t"
  "completedDate (snd (completeDeliverable i f now t)) = completedDate t"
  by (simp_all add: completeDeliverable_def Let_def task_save_fields split: option.splits)

lemma complete_valid:
  "actualHours_valid hours \<Longrightarrow>
   complete hours now t =
     Inr (task_save
           ((case hours of
               None \<Rightarrow> (\<lambda>x. x)
             | Some h \<Rightarrow> actualHours_update (\<lambda>_. h))
             (t\<lparr>status := Completed, completedDate := Some now,
                progress_percentage := Num 100\<rparr>)))"
  by (simp add: complete_def Let_def split: option.splits)

lemma complete_invalid: "\<not> actualHours_valid hours \<Longrightarrow> complete hours now t = Inl ValidationError"
  by (simp add: complete_def Let_def)

lemma complete_fields:
  assumes "complete hours now t = Inr t'"
  shows "status t' = Completed"
    and "completedDate t' = Some now"
    and "progress_percentage t' = Num 100"
    and "assignedTo t' = assignedTo t"
    and "assignedBy t' = assignedBy t"
    and "task_project t' = task_project t"
    and "task_points_base t' = task_points_base t"
    and "task_points_bonus t' = task_points_bonus t"
    and "task_points_total t' = task_points_base t + task_points_bonus t"
  using assms
  by (auto simp: complete_def Let_def task_save_def split: option.splits if_splits)

text \<open>
  Claim C8, amended. \<open>complete\<close>, whenever its save is accepted (hours absent or not
  negative), stores the task with status completed and \<open>completedDate\<close> set, from any
  task; with negative hours the save is rejected and nothing is stored.
  \<open>updateProgress\<close> and \<open>completeDeliverable\<close> preserve "\<open>completedDate\<close> is set iff the
  status is completed"; \<open>assignTo\<close> preserves it on a task that is not completed.
  \<open>assignTo\<close> always sets the status to assigned and never clears the date, so after it
  the property holds exactly when the task had no \<open>completedDate\<close>.
\<close>

theorem completedDate_invariant:
  "(actualHours_valid hours \<longrightarrow>
      (\<exists>t'. complete hours now t = Inr t'
          \<and> status t' = Completed \<and> completedDate t' = Some now \<and> date_iff_completed t'))
   \<and> (\<not> actualHours_valid hours \<longrightarrow> complete hours now t = Inl ValidationError)
   \<and> (date_iff_completed t \<longrightarrow> date_iff_completed (updateProgress p m w att now t))
   \<and> (date_iff_completed t \<longrightarrow> date_iff_completed (snd (completeDeliverable i f now t)))
   \<and> (date_iff_completed t \<and> status t \<noteq> Completed \<longrightarrow> date_iff_completed (assignTo u t))
   \<and> status (assignTo u t) = Assigned
   \<and> completedDate (assignTo u t) = completedDate t
   \<and> date_iff_completed (assignTo u t) = (completedDate t = None)"
proof -
  have 1: "actualHours_valid hours \<longrightarrow>
      (\<exists>t'. complete hours now t = Inr t'
          \<and> status t' = Completed \<and> completedDate t' = Some now \<and> date_iff_completed t')"
  proof
    assume "actualHours_valid hours"
    then obtain t' where t': "complete hours now t = Inr t'"
      using complete_valid by blast
    from complete_fields(1,2) [OF t'] have "date_iff_completed t'"
      by (simp add: date_iff_completed_def)
    with t' complete_fields(1,2) [OF t'] show
      "\<exists>t'. complete hours now t = Inr t'
          \<and> status t' = Completed \<and> completedDate t' = Some now \<and> date_iff_completed t'"
      by blast
  qed
  have 0: "\<not> actualHours_valid hours \<longrightarrow> complete hours now t = Inl ValidationError"
    by (simp add: complete_invalid)
  have 2: "date_iff_completed t \<longrightarrow> date_iff_completed (updateProgress p m w att now t)"
    by (simp add: date_iff_completed_def updateProgress_def Let_def task_save_fields)
  have 3: "date_iff_completed t \<longrightarrow> date_iff_completed (snd (completeDeliverable i f now t))"
    by (simp add: date_iff_completed_def completeDeliverable_status)
  have 4: "status (assignTo u t) = Assigned" "completedDate (assignTo u t) = completedDate t"
    by (simp_all add: assignTo_def task_save_fields)
  have 5: "date_iff_completed (assignTo u t) = (completedDate t = None)"
    by (simp add: date_iff_completed_def 4)
  have 6: "date_iff_completed t \<and> status t \<noteq> Completed \<longrightarrow> date_iff_completed (assignTo u t)"
    by (auto simp: date_iff_completed_def 4)
  from 1 0 2 3 4 5 6 show ?thesis by (intro conjI)
qed

theorem completedDate_invariant_witness:
  "actualHours_valid (Some 3)
   \<and> (\<exists>t'. complete (Some 3) 9 three_task = Inr t'
          \<and> status t' = Completed \<and> completedDate t' = Some 9)
   \<and> \<not> actualHours_valid (Some (- 1))
   \<and> complete (Some (- 1)) 9 three_task = Inl ValidationError
   \<and> date_iff_completed three_task \<and> status three_task \<noteq> Completed
   \<and> date_iff_completed (updateProgress 100 ''done'' 2 [] 9 three_task)
   \<and> fst (completeDeliverable 1 None 9 three_task) = None
   \<and> date_iff_completed (snd (completeDeliverable 1 None 9 three_task))
   \<and> date_iff_completed (assignTo 3 three_task)"
proof -
  have v: "actualHours_valid (Some 3)" "\<not> actualHours_valid (Some (- 1))"
    by (simp_all add: actualHours_valid_def)
  have d: "date_iff_completed three_task" "status three_task \<noteq> Completed"
    by (simp_all add: date_iff_completed_def three_task_def new_task_def)
  have f: "fst (completeDeliverable 1 None 9 three_task) = None"
    by (simp add: completeDeliverable_def three_task_def new_deliverable_def Let_def)
  from v d f
    completedDate_invariant [where hours = "Some 3" and now = 9 and t = three_task and p = 100
      and m = "''done''" and w = 2 and att = "[]" and i = 1 and f = None and u = 3]
    completedDate_invariant [where hours = "Some (- 1)" and now = 9 and t = three_task]
  show ?thesis by blast
qed

text \<open>
  The claim as stated fails for \<open>assignTo\<close> on a completed task: the status becomes
  assigned and the date stays.
\<close>

theorem assignTo_completed_counterexample:
  "complete None 5 ((new_task 1 2)\<lparr>assignedTo := Some 7\<rparr>) = Inr completed_task
   \<and> date_iff_completed completed_task
   \<and> status (assignTo 3 completed_task) = Assigned
   \<and> completedDate (assignTo 3 completed_task) = Some 5
   \<and> \<not> date_iff_completed (assignTo 3 completed_task)"
  by (simp add: date_iff_completed_def assignTo_def complete_def actualHours_valid_def Let_def
        task_save_def completed_task_def new_task_def)

lemma length_update_first: "length (update_first P f xs) = length xs"
  by (induction xs) simp_all

lemma find_update_first:
  "find P xs = Some d \<Longrightarrow> P (f d) \<Longrightarrow> find P (update_first P f xs) = Some (f d)"
  by (induction xs) (auto split: if_splits)

lemma filter_update_first:
  "(\<And>x. P (f x) = P x) \<Longrightarrow> filter (\<lambda>x. \<not> P x) (update_first P f xs) = filter (\<lambda>x. \<not> P x) xs"
  by (induction xs) simp_all

lemma mark_completed_fields:
  "d_id (mark_completed file now d) = d_id d"
  "d_status (mark_completed file now d) = DCompleted"
  by (simp_all add: mark_completed_def Let_def split: option.splits prod.splits)

lemma completeDeliverable_found:
  assumes "find (\<lambda>d. d_id d = i) (deliverables t) = Some d"
  shows "fst (completeDeliverable i file now t) = None"
    and "deliverables (snd (completeDeliverable i file now t))
           = update_first (\<lambda>d. d_id d = i) (mark_completed file now) (deliverables t)"
    and "progress_percentage (snd (completeDeliverable i file now t))
           = round_percent
               (int (length (filter (\<lambda>d. d_status d = DCompleted)
                  (deliverables (snd (completeDeliverable i file now t))))))
               (length (deliverables t))"
  using assms
  by (simp_all add: completeDeliverable_def Let_def task_save_fields length_update_first)

lemma find_Some_nonempty: "find P xs = Some d \<Longrightarrow> 0 < length xs"
  by (cases xs) simp_all

text \<open>
  Claim C7, amended. On a task with fewer than \<open>2^32\<close> deliverables, \<open>completeDeliverable\<close>
  on an existing deliverable succeeds, sets the status of that deliverable to completed
  and leaves the others as they were, and overwrites \<open>progress.percentage\<close>, whatever it
  was, with a value computed from the count \<open>c\<close> of completed deliverables and the
  total \<open>n\<close>: it is \<open>100 c / n\<close> rounded to the nearest integer whenever \<open>100 c / n\<close> is
  not exactly halfway between two integers, and that value or one less when it is
  halfway, since the quotient \<open>c / n\<close> is rounded to a double before the multiplication.
\<close>

theorem completeDeliverable_percentage:
  assumes found: "find (\<lambda>d. d_id d = i) (deliverables t) = Some d"
      and small: "length (deliverables t) < 2 ^ 32"
  shows "fst (completeDeliverable i file now t) = None
     \<and> length (deliverables (snd (completeDeliverable i file now t))) = length (deliverables t)
     \<and> find (\<lambda>d. d_id d = i) (deliverables (snd (completeDeliverable i file now t)))
         = Some (mark_completed file now d)
     \<and> d_status (mark_completed file now d) = DCompleted
     \<and> filter (\<lambda>x. d_id x \<noteq> i) (deliverables (snd (completeDeliverable i file now t)))
         = filter (\<lambda>x. d_id x \<noteq> i) (deliverables t)
     \<and> (let c = int (length (filter (\<lambda>d. d_status d = DCompleted)
                        (deliverables (snd (completeDeliverable i file now t)))));
             n = int (length (deliverables t));
             k = (200 * c + n) div (2 * n)
         in Math_round (100 * of_int c / of_int n) = k
          \<and> (if (200 * c + n) mod (2 * n) = 0
              then progress_percentage (snd (completeDeliverable i file now t)) = Num k
                 \<or> progress_percentage (snd (completeDeliverable i file now t)) = Num (k - 1)
              else progress_percentage (snd (completeDeliverable i file now t)) = Num k))
     \<and> progress_percentage (snd (completeDeliverable i file now (t\<lparr>progress_percentage := q\<rparr>)))
         = progress_percentage (snd (completeDeliverable i file now t))"
proof -
  let ?t' = "snd (completeDeliverable i file now t)"
  let ?c = "length (filter (\<lambda>d. d_status d = DCompleted) (deliverables ?t'))"
  let ?n = "length (deliverables t)"
  note cd = completeDeliverable_found [OF found]
  have n: "0 < ?n" using found by (rule find_Some_nonempty)
  have len: "length (deliverables ?t') = ?n"
    by (simp add: cd length_update_first)
  have fnd: "find (\<lambda>d. d_id d = i) (deliverables ?t') = Some (mark_completed file now d)"
  proof -
    have "d_id d = i" using found by (auto simp: find_Some_iff)
    then show ?thesis
      by (simp add: cd find_update_first [OF found] mark_completed_fields)
  qed
  have others: "filter (\<lambda>x. d_id x \<noteq> i) (deliverables ?t') = filter (\<lambda>x. d_id x \<noteq> i) (deliverables t)"
    by (simp add: cd filter_update_first mark_completed_fields)
  have "?c \<le> length (deliverables ?t')" by (rule length_filter_le)
  then have "?c < 2 ^ 32" using small len by simp
  then have "int ?c < 2 ^ 32" by (metis of_nat_less_iff of_nat_numeral of_nat_power)
  then have c: "\<bar>int ?c\<bar> \<le> 2 ^ 43" by simp
  have ex: "Math_round (100 * of_int (int ?c) / of_int (int ?n))
              = (200 * int ?c + int ?n) div (2 * int ?n)"
    using exact_round [OF n, of "int ?c"] by simp
  have pct: "if (200 * int ?c + int ?n) mod (2 * int ?n) = 0
         then progress_percentage ?t' = Num ((200 * int ?c + int ?n) div (2 * int ?n))
            \<or> progress_percentage ?t' = Num ((200 * int ?c + int ?n) div (2 * int ?n) - 1)
         else progress_percentage ?t' = Num ((200 * int ?c + int ?n) div (2 * int ?n))"
    using round_percent_exact [OF n c] by (simp only: cd(3))
  have found': "find (\<lambda>d. d_id d = i) (deliverables (t\<lparr>progress_percentage := q\<rparr>)) = Some d"
    using found by simp
  have over: "progress_percentage (snd (completeDeliverable i file now (t\<lparr>progress_percentage := q\<rparr>)))
         = progress_percentage ?t'"
    by (simp add: completeDeliverable_found [OF found'] completeDeliverable_found [OF found])
  from cd(1) len fnd mark_completed_fields(2) others ex pct over show ?thesis
    by (simp only: Let_def)
qed


lemma three_task_found:
  "find (\<lambda>d. d_id d = 1) (deliverables three_task) = Some (new_deliverable 1)"
  by (simp add: three_task_def new_deliverable_def)

theorem completeDeliverable_percentage_witness:
  "find (\<lambda>d. d_id d = 1) (deliverables three_task) = Some (new_deliverable 1)
   \<and> length (deliverables three_task) < 2 ^ 32
   \<and> progress_percentage three_task = Num 80
   \<and> fst (completeDeliverable 1 None 9 three_task) = None
   \<and> progress_percentage (snd (completeDeliverable 1 None 9 three_task)) = Num 33"
proof -
  have f: "find (\<lambda>d. d_id d = 1) (deliverables three_task) = Some (new_deliverable 1)"
    by (rule three_task_found)
  have l: "length (deliverables three_task) < 2 ^ 32"
    by (simp add: three_task_def)
  have n: "int (length (deliverables three_task)) = 3"
    by (simp add: three_task_def)
  have c: "int (length (filter (\<lambda>d. d_status d = DCompleted)
              (deliverables (snd (completeDeliverable 1 None 9 three_task))))) = 1"
    by (simp only: completeDeliverable_found(2) [OF f])
       (simp add: three_task_def new_deliverable_def mark_completed_def)
  have p: "progress_percentage three_task = Num 80"
    by (simp add: three_task_def)
  from completeDeliverable_percentage [OF f l, of None 9]
  have "fst (completeDeliverable 1 None 9 three_task) = None"
   and "progress_percentage (snd (completeDeliverable 1 None 9 three_task)) = Num 33"
    by (simp_all only: n c Let_def) simp_all
  with f l p show ?thesis by simp
qed

text \<open>
  The claim as stated fails with 23 of 40 deliverables completed: \<open>100 * 23 / 40\<close> is
  57.5 and rounds to 58, the code computes \<open>(23 / 40) * 100 = 57.49999999999999\<close> in
  double precision and stores 57.
\<close>

theorem completeDeliverable_rounding_counterexample:
  "length (deliverables (snd (completeDeliverable 22 None 9 forty_task))) = 40
   \<and> length (filter (\<lambda>d. d_status d = DCompleted)
        (deliverables (snd (completeDeliverable 22 None 9 forty_task)))) = 23
   \<and> Math_round (100 * 23 / 40) = 58
   \<and> progress_percentage (snd (completeDeliverable 22 None 9 forty_task)) = Num 57"
  by code_simp

lemma round_percent_Num: "0 < n \<Longrightarrow> \<exists>k. round_percent a n = Num k"
  by (simp add: round_percent_def)

text \<open>
  Claim C9, amended. On a task without deliverables \<open>completeDeliverable\<close> throws
  "Deliverable not found" and leaves the task as it was; that is its only error. When it
  succeeds the task has at least one deliverable and the recomputed percentage is a
  finite number: the recomputation never divides by zero.
\<close>

theorem completeDeliverable_no_deliverables:
  "(deliverables t = [] \<longrightarrow> completeDeliverable i file now t = (Some DeliverableNotFound, t))
   \<and> (fst (completeDeliverable i file now t) = None \<longrightarrow>
        deliverables t \<noteq> []
        \<and> (\<exists>k. progress_percentage (snd (completeDeliverable i file now t)) = Num k))
   \<and> (fst (completeDeliverable i file now t) \<noteq> None \<longrightarrow>
        completeDeliverable i file now t = (Some DeliverableNotFound, t))"
proof (cases "find (\<lambda>d. d_id d = i) (deliverables t)")
  case None
  then show ?thesis by (simp add: completeDeliverable_def)
next
  case (Some d)
  then have n: "0 < length (deliverables t)" by (rule find_Some_nonempty)
  then have ne: "deliverables t \<noteq> []" by simp
  from round_percent_Num [OF n]
  have "\<exists>k. progress_percentage (snd (completeDeliverable i file now t)) = Num k"
    by (simp only: completeDeliverable_found(3) [OF Some])
  with ne completeDeliverable_found(1) [OF Some] show ?thesis by simp
qed

theorem completeDeliverable_no_deliverables_witness:
  "deliverables (new_task 1 2) = []
   \<and> completeDeliverable 0 None 9 (new_task 1 2) = (Some DeliverableNotFound, new_task 1 2)
   \<and> fst (completeDeliverable 1 None 9 three_task) = None
   \<and> deliverables three_task \<noteq> []"
proof -
  have e: "deliverables (new_task 1 2) = []" by (simp add: new_task_def)
  have s: "fst (completeDeliverable 1 None 9 three_task) = None"
    by (rule completeDeliverable_found(1) [OF three_task_found])
  from e s completeDeliverable_no_deliverables [of "new_task 1 2" 0 None 9]
       completeDeliverable_no_deliverables [of three_task 1 None 9]
  show ?thesis by blast
qed

text \<open>
  The claim as stated fails on a new task: the call stops at the lookup, the percentage
  keeps its value, and the \<open>NaN\<close> that \<open>0 / 0\<close> would give is never stored.
\<close>

theorem completeDeliverable_empty_counterexample:
  "deliverables (new_task 1 2) = []
   \<and> completeDeliverable 0 None 9 (new_task 1 2) = (Some DeliverableNotFound, new_task 1 2)
   \<and> progress_percentage (snd (completeDeliverable 0 None 9 (new_task 1 2))) = Num 0
   \<and> round_percent 0 0 = NaN"
  by (simp add: completeDeliverable_def new_task_def round_percent_def)

subsection \<open>Leaderboard rank\<close>

lemma metric_gt:
  "type \<in> {''points'', ''projects'', ''hours''} \<Longrightarrow>
   fst (rank_counts db usr type)
     = 1 + length (filter (\<lambda>u. isActive u \<and> metric type u > metric type usr) db)
   \<and> snd (rank_counts db usr type)
     = length (filter (\<lambda>u. isActive u \<and> metric type u > 0) db)"
  by (auto simp: rank_counts_def countDocuments_def metric_def conj_commute)

text \<open>
  Claim C6, amended. For an existing user, a metric among points, projects and hours, and
  fewer than \<open>2^32\<close> users: the rank is one more than the number of active users with a
  strictly greater metric, the total is the number of active users with a positive
  metric, and the percentile is 0 when the total is 0. Otherwise, with
  \<open>a = total - rank + 1\<close>, the percentile is \<open>100 a / total\<close> rounded to the nearest
  integer whenever that value is not exactly halfway between two integers, and that value
  or one less when it is halfway, since \<open>a / total\<close> is rounded to a double before the
  multiplication.
\<close>

theorem rank_route_result:
  assumes found: "findById db userId = Some usr"
      and type: "type \<in> {''points'', ''projects'', ''hours''}"
      and small: "length db < 2 ^ 32"
  shows "\<exists>r. rank_route db userId (Some type) = Inr r
     \<and> rank r = 1 + length (filter (\<lambda>u. isActive u \<and> metric type u > metric type usr) db)
     \<and> total r = length (filter (\<lambda>u. isActive u \<and> metric type u > 0) db)
     \<and> (total r = 0 \<longrightarrow> percentile r = Num 0)
     \<and> (0 < total r \<longrightarrow>
          (let a = int (total r) - int (rank r) + 1;
               n = int (total r);
               k = (200 * a + n) div (2 * n)
           in Math_round (100 * of_int a / of_int n) = k
            \<and> (if (200 * a + n) mod (2 * n) = 0
                then percentile r = Num k \<or> percentile r = Num (k - 1)
                else percentile r = Num k)))"
proof -
  define rnk where "rnk = fst (rank_counts db usr type)"
  define tot where "tot = snd (rank_counts db usr type)"
  define r where "r = \<lparr>rank = rnk, total = tot,
       percentile = (if tot > 0 then round_percent (int tot - int rnk + 1) tot else Num 0)\<rparr>"
  have route: "rank_route db userId (Some type) = Inr r"
    using found by (simp add: rank_route_def r_def rnk_def tot_def split: prod.splits)
  have rk: "rank r = 1 + length (filter (\<lambda>u. isActive u \<and> metric type u > metric type usr) db)"
    using metric_gt [OF type, of db usr] by (simp add: r_def rnk_def)
  have tt: "total r = length (filter (\<lambda>u. isActive u \<and> metric type u > 0) db)"
    using metric_gt [OF type, of db usr] by (simp add: r_def tot_def)
  have zero: "total r = 0 \<longrightarrow> percentile r = Num 0"
    by (simp add: r_def)
  have pos: "0 < total r \<longrightarrow>
          (let a = int (total r) - int (rank r) + 1;
               n = int (total r);
               k = (200 * a + n) div (2 * n)
           in Math_round (100 * of_int a / of_int n) = k
            \<and> (if (200 * a + n) mod (2 * n) = 0
                then percentile r = Num k \<or> percentile r = Num (k - 1)
                else percentile r = Num k))"
  proof
    assume t: "0 < total r"
    then have tp: "0 < tot" by (simp add: r_def)
    define h where "h = length (filter (\<lambda>u. isActive u \<and> metric type u > metric type usr) db)"
    have h: "h \<le> length db" unfolding h_def by (rule length_filter_le)
    have rh: "rnk = 1 + h" using rk by (simp add: r_def h_def)
    have "tot \<le> length db" using tt by (simp add: r_def)
    with h rh have "\<bar>int tot - int rnk + 1\<bar> \<le> int (length db)"
      by linarith
    also have "\<dots> < 2 ^ 32" using small by (metis of_nat_less_iff of_nat_numeral of_nat_power)
    finally have a: "\<bar>int tot - int rnk + 1\<bar> \<le> 2 ^ 43" by simp
    have p: "percentile r = round_percent (int tot - int rnk + 1) tot"
      using tp by (simp add: r_def)
    have ex: "Math_round (100 * of_int (int tot - int rnk + 1) / of_int (int tot))
                = (200 * (int tot - int rnk + 1) + int tot) div (2 * int tot)"
      using exact_round [OF tp, of "int tot - int rnk + 1"] by simp
    have sel: "rank r = rnk" "total r = tot" by (simp_all add: r_def)
    have both: "Math_round (100 * of_int (int tot - int rnk + 1) / of_int (int tot))
                = (200 * (int tot - int rnk + 1) + int tot) div (2 * int tot)
       \<and> (if (200 * (int tot - int rnk + 1) + int tot) mod (2 * int tot) = 0
         then round_percent (int tot - int rnk + 1) tot
                = Num ((200 * (int tot - int rnk + 1) + int tot) div (2 * int tot))
            \<or> round_percent (int tot - int rnk + 1) tot
                = Num ((200 * (int tot - int rnk + 1) + int tot) div (2 * int tot) - 1)
         else round_percent (int tot - int rnk + 1) tot
                = Num ((200 * (int tot - int rnk + 1) + int tot) div (2 * int tot)))"
      using ex round_percent_exact [OF tp a] by (rule conjI)
    show
      "let a = int (total r) - int (rank r) + 1;
               n = int (total r);
               k = (200 * a + n) div (2 * n)
           in Math_round (100 * of_int a / of_int n) = k
            \<and> (if (200 * a + n) mod (2 * n) = 0
                then percentile r = Num k \<or> percentile r = Num (k - 1)
                else percentile r = Num k)"
      unfolding Let_def sel p by (rule both)
  qed
  show ?thesis
  proof (intro exI conjI)
    show "rank_route db userId (Some type) = Inr r" by (rule route)
  qed (rule rk tt zero pos)+
qed


lemma rank_route_default: "rank_route db userId None = rank_route db userId (Some ''points'')"
  by (simp add: rank_route_def)

theorem rank_route_result_witness:
  "findById example_users 2 = Some (user_with_points 2 300)
   \<and> ''points'' \<in> {''points'', ''projects'', ''hours''}
   \<and> length example_users < 2 ^ 32
   \<and> rank_route example_users 2 (Some ''points'') = Inr \<lparr>rank = 2, total = 4, percentile = Num 75\<rparr>"
proof -
  have f: "findById example_users 2 = Some (user_with_points 2 300)"
    by (simp add: findById_def example_users_def user_with_points_def fresh_user_def)
  have t: "''points'' \<in> {''points'', ''projects'', ''hours''}" by simp
  have l: "length example_users < 2 ^ 32" by (simp add: example_users_def)
  have rk: "1 + length (filter (\<lambda>u. isActive u
              \<and> metric ''points'' u > metric ''points'' (user_with_points 2 300)) example_users) = 2"
    by (simp add: example_users_def user_with_points_def fresh_user_def metric_def)
  have tt: "length (filter (\<lambda>u. isActive u \<and> metric ''points'' u > 0) example_users) = 4"
    by (simp add: example_users_def user_with_points_def fresh_user_def metric_def)
  from rank_route_result [OF f t l] obtain r where
    all: "rank_route example_users 2 (Some ''points'') = Inr r
     \<and> rank r = 1 + length (filter (\<lambda>u. isActive u
              \<and> metric ''points'' u > metric ''points'' (user_with_points 2 300)) example_users)
     \<and> total r = length (filter (\<lambda>u. isActive u \<and> metric ''points'' u > 0) example_users)
     \<and> (total r = 0 \<longrightarrow> percentile r = Num 0)
     \<and> (0 < total r \<longrightarrow>
          (let a = int (total r) - int (rank r) + 1;
               n = int (total r);
               k = (200 * a + n) div (2 * n)
           in Math_round (100 * of_int a / of_int n) = k
            \<and> (if (200 * a + n) mod (2 * n) = 0
                then percentile r = Num k \<or> percentile r = Num (k - 1)
                else percentile r = Num k)))" ..
  note r = all [THEN conjunct1]
  note 1 = all [THEN conjunct2, THEN conjunct1]
  note 2 = all [THEN conjunct2, THEN conjunct2, THEN conjunct1]
  note 3 = all [THEN conjunct2, THEN conjunct2, THEN conjunct2, THEN conjunct2]
  have rk2: "rank r = 2" using 1 rk by simp
  have tt4: "total r = 4" using 2 tt by simp
  have "0 < total r" by (simp add: tt4)
  with 3 have "let a = int (total r) - int (rank r) + 1;
               n = int (total r);
               k = (200 * a + n) div (2 * n)
           in Math_round (100 * of_int a / of_int n) = k
            \<and> (if (200 * a + n) mod (2 * n) = 0
                then percentile r = Num k \<or> percentile r = Num (k - 1)
                else percentile r = Num k)" by (rule mp)
  then have "percentile r = Num 75" unfolding Let_def rk2 tt4 by simp
  with rk2 tt4 have "r = \<lparr>rank = 2, total = 4, percentile = Num 75\<rparr>" by simp
  with f t l r show ?thesis by simp
qed

text \<open>
  The claim as stated fails for the user ranked 18th of 40: \<open>100 * 23 / 40\<close> rounds to
  58, the handler answers 57.
\<close>

theorem rank_route_rounding_counterexample:
  "rank_route forty_users 23 None = Inr \<lparr>rank = 18, total = 40, percentile = Num 57\<rparr>
   \<and> Math_round (100 * (40 - 18 + 1) / 40) = 58"
  by code_simp

subsection \<open>Task completion workflow\<close>

lemma checkAndAwardBadges_other:
  "u_id (checkAndAwardBadges now u) = u_id u"
  "tasksCompleted (checkAndAwardBadges now u) = tasksCompleted u"
  by (simp_all add: checkAndAwardBadges_def Let_def)

lemma addPoints_other:
  "u_id (addPoints a r p now u) = u_id u"
  "tasksCompleted (addPoints a r p now u) = tasksCompleted u"
  by (simp_all add: addPoints_def checkAndAwardBadges_other)

lemma findById_save_user:
  assumes "findById db (u_id u) = Some v"
  shows "findById (save_user u db) (u_id u) = Some u"
  using find_update_first [of "\<lambda>w. u_id w = u_id u" db v "\<lambda>w. u"] assms
  by (simp add: findById_def save_user_def)

lemma findById_id: "findById db a = Some v \<Longrightarrow> u_id v = a"
  by (auto simp: findById_def find_Some_iff)

lemma complete_route_rejected:
  assumes task: "tasks st taskId = Some t"
      and allowed: "callerRole = Admin \<or> assignedTo t = Some callerId \<or> assignedBy t = callerId"
      and invalid: "\<not> actualHours_valid hours"
  shows "complete_route st callerId callerRole taskId hours now now' = (Response 500 ''Server error'', st)"
  using task allowed by (simp add: complete_route_def complete_invalid [OF invalid])

lemma complete_route_orphan:
  assumes task: "tasks st taskId = Some t"
      and allowed: "callerRole = Admin \<or> assignedTo t = Some callerId \<or> assignedBy t = callerId"
      and assignee: "assignedTo t = Some a"
      and valid: "actualHours_valid hours"
      and missing: "findById (users st) a = None"
  shows "fst (complete_route st callerId callerRole taskId hours now now')
           = Response 200 ''Task completed successfully''
     \<and> users (snd (complete_route st callerId callerRole taskId hours now now')) = users st
     \<and> (\<exists>t'. tasks (snd (complete_route st callerId callerRole taskId hours now now')) taskId = Some t'
            \<and> status t' = Completed
            \<and> task_points_total t' = task_points_base t + task_points_bonus t)"
proof -
  from valid obtain t' where ct: "complete hours now t = Inr t'"
    using complete_valid by blast
  have a': "assignedTo t' = Some a" using assignee complete_fields(4) [OF ct] by simp
  have route: "complete_route st callerId callerRole taskId hours now now'
                 = (Response 200 ''Task completed successfully'',
                    st\<lparr>tasks := (tasks st)(taskId \<mapsto> t')\<rparr>)"
    using task allowed a' missing by (simp add: complete_route_def ct Let_def)
  show ?thesis
    unfolding route fst_conv snd_conv
    using complete_fields(1,9) [OF ct] by simp
qed

lemma complete_route_step:
  assumes task: "tasks st taskId = Some t"
      and allowed: "callerRole = Admin \<or> assignedTo t = Some callerId \<or> assignedBy t = callerId"
      and assignee: "assignedTo t = Some a"
      and valid: "actualHours_valid hours"
      and exists: "findById (users st) a = Some vol"
  shows "fst (complete_route st callerId callerRole taskId hours now now')
           = Response 200 ''Task completed successfully''
     \<and> (\<exists>t'. tasks (snd (complete_route st callerId callerRole taskId hours now now')) taskId = Some t'
            \<and> status t' = Completed
            \<and> assignedTo t' = Some a
            \<and> assignedBy t' = assignedBy t
            \<and> task_points_base t' = task_points_base t
            \<and> task_points_bonus t' = task_points_bonus t
            \<and> task_points_total t' = task_points_base t + task_points_bonus t)
     \<and> (\<exists>vol'. findById (users (snd (complete_route st callerId callerRole taskId hours now now'))) a
                   = Some vol'
            \<and> points_total vol' = points_total vol + (task_points_base t + task_points_bonus t)
            \<and> points_earned vol' = points_earned vol @
                 [\<lparr>pe_amount = task_points_base t + task_points_bonus t,
                   pe_reason = ''Task completed'', pe_date = now',
                   pe_project = Some (task_project t)\<rparr>]
            \<and> tasksCompleted vol' = tasksCompleted vol + 1)"
proof -
  from valid obtain t' where ct: "complete hours now t = Inr t'"
    using complete_valid by blast
  note cf = complete_fields [OF ct]
  define v1 where "v1 = addPoints (task_points_total t') ''Task completed'' (Some (task_project t')) now' vol"
  define v2 where "v2 = v1\<lparr>tasksCompleted := tasksCompleted v1 + 1\<rparr>"
  define v3 where "v3 = (case hours of None \<Rightarrow> v2
                         | Some h \<Rightarrow> if h \<noteq> 0 then v2\<lparr>hoursVolunteered := hoursVolunteered v2 + h\<rparr> else v2)"
  define st' where "st' = st\<lparr>tasks := (tasks st)(taskId \<mapsto> t'),
                              users := save_user v3 (save_user v1 (users st))\<rparr>"
  have a': "assignedTo t' = Some a" using assignee cf(4) by simp
  have ida: "u_id vol = a" using exists by (rule findById_id)
  have id1: "u_id v1 = a" by (simp add: v1_def addPoints_other ida)
  have id3: "u_id v3 = a" by (simp add: v3_def v2_def id1 split: option.splits)
  have route: "complete_route st callerId callerRole taskId hours now now'
                 = (Response 200 ''Task completed successfully'', st')"
    using task allowed a' exists
    by (simp add: complete_route_def ct Let_def v1_def [symmetric]
          v2_def v3_def st'_def split: option.splits)
  have f1: "findById (save_user v1 (users st)) a = Some v1"
    using findById_save_user [of "users st" v1 vol] exists by (simp add: id1)
  have f3: "findById (save_user v3 (save_user v1 (users st))) a = Some v3"
    using findById_save_user [of "save_user v1 (users st)" v3 v1] f1 by (simp add: id3)
  have tot: "task_points_total t' = task_points_base t + task_points_bonus t"
    by (rule cf(9))
  have p3: "points_total v3 = points_total vol + (task_points_base t + task_points_bonus t)"
    by (simp add: v3_def v2_def v1_def addPoints_total tot split: option.splits)
  have e3: "points_earned v3 = points_earned vol @
                 [\<lparr>pe_amount = task_points_base t + task_points_bonus t,
                   pe_reason = ''Task completed'', pe_date = now',
                   pe_project = Some (task_project t)\<rparr>]"
    by (simp add: v3_def v2_def v1_def addPoints_earned tot cf(6) split: option.splits)
  have c3: "tasksCompleted v3 = tasksCompleted vol + 1"
    by (simp add: v3_def v2_def v1_def addPoints_other split: option.splits)
  have T: "tasks st' taskId = Some t'"
    by (simp add: st'_def)
  have U: "findById (users st') a = Some v3"
    using f3 by (simp add: st'_def)
  show ?thesis
    unfolding route fst_conv snd_conv
    using T cf(1) a' cf(5) cf(7) cf(8) tot U p3 e3 c3 by blast
qed

text \<open>
  Claim C10, amended. Whenever the handler completes a task for a permitted caller, with
  hours absent or not negative, it answers 200 and stores the task as completed,
  whatever the status of the task was. If the assignee exists as a user, the assignee's
  total grows by the task's total points (base plus bonus, as the save stores it), one
  entry with reason "Task completed" is appended to the log and \<open>tasksCompleted\<close> grows
  by one; a second such invocation on the resulting store, where the task is completed,
  credits the same points again. If the assignee does not exist as a user, nobody is
  credited.
\<close>

theorem complete_route_credits:
  assumes task: "tasks st taskId = Some t"
      and allowed: "callerRole = Admin \<or> assignedTo t = Some callerId \<or> assignedBy t = callerId"
      and assignee: "assignedTo t = Some a"
      and valid: "actualHours_valid hours"
      and valid': "actualHours_valid hours'"
  shows "fst (complete_route st callerId callerRole taskId hours now now')
           = Response 200 ''Task completed successfully''
     \<and> (\<exists>t'. tasks (snd (complete_route st callerId callerRole taskId hours now now')) taskId = Some t'
            \<and> status t' = Completed
            \<and> task_points_total t' = task_points_base t + task_points_bonus t)
     \<and> (findById (users st) a = Some vol \<longrightarrow>
          (\<exists>vol'. findById (users (snd (complete_route st callerId callerRole taskId hours now now'))) a
                   = Some vol'
            \<and> points_total vol' = points_total vol + (task_points_base t + task_points_bonus t)
            \<and> points_earned vol' = points_earned vol @
                 [\<lparr>pe_amount = task_points_base t + task_points_bonus t,
                   pe_reason = ''Task completed'', pe_date = now',
                   pe_project = Some (task_project t)\<rparr>]
            \<and> tasksCompleted vol' = tasksCompleted vol + 1)
        \<and> (\<exists>vol''. findById (users (snd (complete_route
                      (snd (complete_route st callerId callerRole taskId hours now now'))
                      callerId callerRole taskId hours' later later'))) a = Some vol''
            \<and> points_total vol'' = points_total vol + 2 * (task_points_base t + task_points_bonus t)
            \<and> length (points_earned vol'') = length (points_earned vol) + 2
            \<and> tasksCompleted vol'' = tasksCompleted vol + 2))
     \<and> (findById (users st) a = None \<longrightarrow>
          users (snd (complete_route st callerId callerRole taskId hours now now')) = users st)"
proof -
  let ?st1 = "snd (complete_route st callerId callerRole taskId hours now now')"
  have AC: "fst (complete_route st callerId callerRole taskId hours now now')
              = Response 200 ''Task completed successfully''
     \<and> (\<exists>t'. tasks ?st1 taskId = Some t' \<and> status t' = Completed
            \<and> task_points_total t' = task_points_base t + task_points_bonus t)"
  proof (cases "findById (users st) a")
    case None
    note orphan = complete_route_orphan [OF task allowed assignee valid None, of now now']
    from orphan [THEN conjunct1] orphan [THEN conjunct2, THEN conjunct2]
    show ?thesis by (rule conjI)
  next
    case (Some v)
    note first = complete_route_step [OF task allowed assignee valid Some, of now now']
    from first [THEN conjunct2, THEN conjunct1] obtain t' where
      "tasks ?st1 taskId = Some t'" and "status t' = Completed"
      and "task_points_total t' = task_points_base t + task_points_bonus t"
      by (elim conjE exE) (rule that)
    then have "\<exists>t'. tasks ?st1 taskId = Some t' \<and> status t' = Completed
            \<and> task_points_total t' = task_points_base t + task_points_bonus t"
      by (intro exI [of _ t'] conjI)
    with first [THEN conjunct1] show ?thesis by (rule conjI)
  qed
  have N: "findById (users st) a = None \<longrightarrow> users ?st1 = users st"
  proof
    assume none: "findById (users st) a = None"
    from complete_route_orphan [OF task allowed assignee valid none, of now now']
    show "users ?st1 = users st" by (rule conjunct1 [OF conjunct2])
  qed
  have I: "findById (users st) a = Some vol \<longrightarrow>
          (\<exists>vol'. findById (users ?st1) a = Some vol'
            \<and> points_total vol' = points_total vol + (task_points_base t + task_points_bonus t)
            \<and> points_earned vol' = points_earned vol @
                 [\<lparr>pe_amount = task_points_base t + task_points_bonus t,
                   pe_reason = ''Task completed'', pe_date = now',
                   pe_project = Some (task_project t)\<rparr>]
            \<and> tasksCompleted vol' = tasksCompleted vol + 1)
        \<and> (\<exists>vol''. findById (users (snd (complete_route ?st1
                      callerId callerRole taskId hours' later later'))) a = Some vol''
            \<and> points_total vol'' = points_total vol + 2 * (task_points_base t + task_points_bonus t)
            \<and> length (points_earned vol'') = length (points_earned vol) + 2
            \<and> tasksCompleted vol'' = tasksCompleted vol + 2)"
  proof
    assume ex: "findById (users st) a = Some vol"
    note first = complete_route_step [OF task allowed assignee valid ex, of now now']
    from first [THEN conjunct2, THEN conjunct1] obtain t' where
          t1: "tasks ?st1 taskId = Some t'"
      and t3: "assignedTo t' = Some a"
      and t4: "assignedBy t' = assignedBy t"
      and t5: "task_points_base t' = task_points_base t"
      and t6: "task_points_bonus t' = task_points_bonus t"
      by (elim conjE exE) (rule that)
    from first [THEN conjunct2, THEN conjunct2] obtain vol' where
          v1: "findById (users ?st1) a = Some vol'"
      and v2: "points_total vol' = points_total vol + (task_points_base t + task_points_bonus t)"
      and v3: "points_earned vol' = points_earned vol @
                 [\<lparr>pe_amount = task_points_base t + task_points_bonus t,
                   pe_reason = ''Task completed'', pe_date = now',
                   pe_project = Some (task_project t)\<rparr>]"
      and v4: "tasksCompleted vol' = tasksCompleted vol + 1"
      by (elim conjE exE) (rule that)
    have allowed': "callerRole = Admin \<or> assignedTo t' = Some callerId \<or> assignedBy t' = callerId"
      using allowed assignee t3 t4 by (simp only:)
    note second = complete_route_step [OF t1 allowed' t3 valid' v1, of later later']
    from second [THEN conjunct2, THEN conjunct2] obtain vol'' where
          w1: "findById (users (snd (complete_route ?st1 callerId callerRole taskId hours' later later'))) a
                 = Some vol''"
      and w2: "points_total vol'' = points_total vol' + (task_points_base t' + task_points_bonus t')"
      and w3: "points_earned vol'' = points_earned vol' @
                 [\<lparr>pe_amount = task_points_base t' + task_points_bonus t',
                   pe_reason = ''Task completed'', pe_date = later',
                   pe_project = Some (task_project t')\<rparr>]"
      and w4: "tasksCompleted vol'' = tasksCompleted vol' + 1"
      by (elim conjE exE) (rule that)
    have x2: "points_total vol'' = points_total vol + 2 * (task_points_base t + task_points_bonus t)"
      by (simp add: w2 v2 t5 t6)
    have x3: "length (points_earned vol'') = length (points_earned vol) + 2"
      by (simp add: w3 v3)
    have x4: "tasksCompleted vol'' = tasksCompleted vol + 2"
      by (simp add: w4 v4)
    have B: "\<exists>vol'. findById (users ?st1) a = Some vol'
            \<and> points_total vol' = points_total vol + (task_points_base t + task_points_bonus t)
            \<and> points_earned vol' = points_earned vol @
                 [\<lparr>pe_amount = task_points_base t + task_points_bonus t,
                   pe_reason = ''Task completed'', pe_date = now',
                   pe_project = Some (task_project t)\<rparr>]
            \<and> tasksCompleted vol' = tasksCompleted vol + 1"
      using v1 v2 v3 v4 by (intro exI [of _ vol'] conjI)
    have D: "\<exists>vol''. findById (users (snd (complete_route ?st1
                      callerId callerRole taskId hours' later later'))) a = Some vol''
            \<and> points_total vol'' = points_total vol + 2 * (task_points_base t + task_points_bonus t)
            \<and> length (points_earned vol'') = length (points_earned vol) + 2
            \<and> tasksCompleted vol'' = tasksCompleted vol + 2"
      using w1 x2 x3 x4 by (intro exI [of _ vol''] conjI)
    from B D show
      "(\<exists>vol'. findById (users ?st1) a = Some vol'
            \<and> points_total vol' = points_total vol + (task_points_base t + task_points_bonus t)
            \<and> points_earned vol' = points_earned vol @
                 [\<lparr>pe_amount = task_points_base t + task_points_bonus t,
                   pe_reason = ''Task completed'', pe_date = now',
                   pe_project = Some (task_project t)\<rparr>]
            \<and> tasksCompleted vol' = tasksCompleted vol + 1)
        \<and> (\<exists>vol''. findById (users (snd (complete_route ?st1
                      callerId callerRole taskId hours' later later'))) a = Some vol''
            \<and> points_total vol'' = points_total vol + 2 * (task_points_base t + task_points_bonus t)
            \<and> length (points_earned vol'') = length (points_earned vol) + 2
            \<and> tasksCompleted vol'' = tasksCompleted vol + 2)"
      by (rule conjI)
  qed
  from AC [THEN conjunct1] AC [THEN conjunct2] I N show ?thesis by (intro conjI)
qed

theorem complete_route_credits_witness:
  "tasks completed_store 4 = Some completed_task
   \<and> status completed_task = Completed
   \<and> assignedTo completed_task = Some 7
   \<and> actualHours_valid (Some 2) \<and> actualHours_valid None
   \<and> findById (users completed_store) 7 = Some (fresh_user 7)
   \<and> fst (complete_route completed_store 9 Admin 4 (Some 2) 10 11)
       = Response 200 ''Task completed successfully''
   \<and> (\<exists>vol'. findById (users (snd (complete_route completed_store 9 Admin 4 (Some 2) 10 11))) 7 = Some vol'
          \<and> points_total vol' = 100 \<and> tasksCompleted vol' = 1)
   \<and> tasks orphan_store 4 = Some orphan_task
   \<and> assignedTo orphan_task = Some 8
   \<and> findById (users orphan_store) 8 = None
   \<and> users (snd (complete_route orphan_store 9 Admin 4 (Some 2) 10 11)) = users orphan_store"
proof -
  have t: "tasks completed_store 4 = Some completed_task"
    by (simp add: completed_store_def)
  have s: "status completed_task = Completed" "assignedTo completed_task = Some 7"
          "task_points_base completed_task + task_points_bonus completed_task = 100"
    by (simp_all add: completed_task_def new_task_def)
  have al: "Admin = Admin \<or> assignedTo completed_task = Some 9 \<or> assignedBy completed_task = 9"
    by simp
  have h: "actualHours_valid (Some 2)" "actualHours_valid None"
    by (simp_all add: actualHours_valid_def)
  have u: "findById (users completed_store) 7 = Some (fresh_user 7)"
    by (simp add: completed_store_def findById_def fresh_user_def)
  have z: "points_total (fresh_user 7) = 0" "tasksCompleted (fresh_user 7) = 0"
    by (simp_all add: fresh_user_def)
  have ot: "tasks orphan_store 4 = Some orphan_task" "assignedTo orphan_task = Some 8"
    by (simp_all add: orphan_store_def orphan_task_def)
  have oal: "Admin = Admin \<or> assignedTo orphan_task = Some 9 \<or> assignedBy orphan_task = 9"
    by simp
  have ou: "findById (users orphan_store) 8 = None"
    by (simp add: orphan_store_def findById_def fresh_user_def)
  from complete_route_credits [OF t al s(2) h(1) h(2), where now = 10 and now' = 11
         and later = 12 and later' = 13 and vol = "fresh_user 7"] u s(3) z
  have "fst (complete_route completed_store 9 Admin 4 (Some 2) 10 11)
          = Response 200 ''Task completed successfully''"
   and "\<exists>vol'. findById (users (snd (complete_route completed_store 9 Admin 4 (Some 2) 10 11))) 7 = Some vol'
          \<and> points_total vol' = 100 \<and> tasksCompleted vol' = 1"
    by auto
  moreover from complete_route_credits [OF ot(1) oal ot(2) h(1) h(2), where now = 10 and now' = 11] ou
  have "users (snd (complete_route orphan_store 9 Admin 4 (Some 2) 10 11)) = users orphan_store"
    by blast
  ultimately show ?thesis using t s h u ot ou by simp
qed

text \<open>
  The claim as stated fails on a task whose assignee does not exist as a user: the
  handler completes the task, answers 200 and credits nobody.
\<close>

theorem complete_route_orphan_counterexample:
  "tasks orphan_store 4 = Some orphan_task
   \<and> assignedTo orphan_task = Some 8
   \<and> fst (complete_route orphan_store 9 Admin 4 None 10 11)
       = Response 200 ''Task completed successfully''
   \<and> users (snd (complete_route orphan_store 9 Admin 4 None 10 11)) = users orphan_store"
  by (simp add: complete_route_def complete_def actualHours_valid_def Let_def orphan_store_def
        orphan_task_def new_task_def findById_def fresh_user_def task_save_def)

text \<open>
  With negative hours the save inside \<open>task.complete\<close> is rejected: the handler answers
  500, the task stays as it was and nobody is credited.
\<close>

lemma complete_route_negative_hours:
  "complete_route completed_store 9 Admin 4 (Some (- 1)) 10 11
     = (Response 500 ''Server error'', completed_store)"
  by (simp add: complete_route_def complete_def actualHours_valid_def Let_def completed_store_def)

end
